theory Spec2Isabelle
  imports Complex_Main "HOL-Library.Word"
begin

section \<open>Errors of the platform\<close>

text \<open>
  The exceptions the modelled code can meet. Every \<^verbatim>\<open>throw\<close> of the platform functions
  the source calls is a value \<open>Inl e\<close> of the model.
\<close>

datatype js_error =
    InvalidCharacterError
  | RangeError
  | NotSupportedError
  | InvalidStateError
  | QuotaExceededError
  | NS_ERROR_DOM_QUOTA_REACHED
  | TypeError
  | OtherError

section \<open>Narration decoding (utils/audio)\<close>

subsection \<open>\<^verbatim>\<open>atob\<close>: the forgiving base64 decoder of the platform\<close>

definition b64_alphabet :: string where
  "b64_alphabet = ''ABCDEFGHIJKLMNOPQRSTUVWXYZabcdefghijklmnopqrstuvwxyz0123456789+/''"

fun index_of :: "'a list \<Rightarrow> 'a \<Rightarrow> nat option" where
  "index_of [] c = None"
| "index_of (x # xs) c = (if x = c then Some 0 else map_option Suc (index_of xs c))"

definition sextet :: "char \<Rightarrow> nat option" where
  "sextet c = index_of b64_alphabet c"

definition is_ascii_whitespace :: "char \<Rightarrow> bool" where
  "is_ascii_whitespace c \<longleftrightarrow> of_char c \<in> {9, 10, 12, 13, 32 :: nat}"

definition strip_padding :: "string \<Rightarrow> string" where
  "strip_padding d =
     (if length d mod 4 = 0 \<and> d \<noteq> [] \<and> last d = CHR ''=''
      then (let d1 = butlast d in
            if d1 \<noteq> [] \<and> last d1 = CHR ''='' then butlast d1 else d1)
      else d)"

fun sextets :: "string \<Rightarrow> nat list option" where
  "sextets [] = Some []"
| "sextets (c # cs) =
     (case sextet c of
        None \<Rightarrow> None
      | Some v \<Rightarrow> map_option ((#) v) (sextets cs))"

text \<open>
  Four sextets give three bytes; a trailing pair gives one byte (its last four bits are
  dropped), a trailing triple two bytes (its last two bits are dropped).
\<close>

fun b64_groups :: "nat list \<Rightarrow> string" where
  "b64_groups (a # b # c # d # rest) =
     (let n = ((a * 64 + b) * 64 + c) * 64 + d
      in char_of (n div 65536) # char_of (n div 256 mod 256) # char_of (n mod 256)
         # b64_groups rest)"
| "b64_groups [a, b, c] =
     (let n = ((a * 64 + b) * 64 + c) div 4
      in [char_of (n div 256), char_of (n mod 256)])"
| "b64_groups [a, b] = [char_of ((a * 64 + b) div 16)]"
| "b64_groups _ = []"

definition atob :: "string \<Rightarrow> js_error + string" where
  "atob s =
     (let d = strip_padding (filter (\<lambda>c. \<not> is_ascii_whitespace c) s)
      in if length d mod 4 = 1 then Inl InvalidCharacterError
         else (case sextets d of
                 None \<Rightarrow> Inl InvalidCharacterError
               | Some vs \<Rightarrow> Inr (b64_groups vs)))"

subsection \<open>\<^verbatim>\<open>decodeBase64\<close>\<close>

type_synonym byte = "8 word"

text \<open>
  \<^verbatim>\<open>bytes[i] = binaryString.charCodeAt(i)\<close> for every index of the binary string; the
  exception of \<^verbatim>\<open>atob\<close> propagates.
\<close>

definition decodeBase64 :: "string \<Rightarrow> js_error + byte list" where
  "decodeBase64 base64 =
     (case atob base64 of
        Inl e \<Rightarrow> Inl e
      | Inr binaryString \<Rightarrow> Inr (map (\<lambda>c. word_of_nat (of_char c)) binaryString))"

subsection \<open>\<^verbatim>\<open>decodeAudioData\<close>\<close>

text \<open>
  An \<^verbatim>\<open>AudioBuffer\<close>. A sample is a \<^verbatim>\<open>Float32\<close>; the only values the decoder stores are
  quotients \<open>k / 32768\<close> with \<open>- 32768 \<le> k < 32768\<close>, which have at most 16 significant
  bits and are therefore stored without rounding, so a sample is modelled by the real
  number it denotes.
\<close>

record AudioBuffer =
  numberOfChannels :: nat
  buf_length :: nat
  sampleRate :: nat
  channelData :: "real list list"

text \<open>
  \<^verbatim>\<open>new Int16Array(data.buffer)\<close> views the bytes as 16-bit signed integers in the byte
  order of the platform, which is little-endian; it throws a \<^verbatim>\<open>RangeError\<close> when the byte
  length is odd.
\<close>

fun int16_pairs :: "byte list \<Rightarrow> 16 word list" where
  "int16_pairs (lo # hi # rest) = word_of_nat (unat lo + 256 * unat hi) # int16_pairs rest"
| "int16_pairs _ = []"

definition Int16Array :: "byte list \<Rightarrow> js_error + 16 word list" where
  "Int16Array buffer =
     (if odd (length buffer) then Inl RangeError else Inr (int16_pairs buffer))"

text \<open>
  \<^verbatim>\<open>ctx.createBuffer(numChannels, frameCount, sampleRate)\<close> converts the frame count to an
  unsigned integer (the quotient \<^verbatim>\<open>dataInt16.length / numChannels\<close> is truncated) and throws
  a \<^verbatim>\<open>NotSupportedError\<close> for no channel or no frame. The two loops then fill every
  channel; a write beyond the buffer's length is ignored by the typed array.
\<close>

definition decodeAudioData :: "byte list \<Rightarrow> nat \<Rightarrow> nat \<Rightarrow> js_error + AudioBuffer" where
  "decodeAudioData data rate numChannels =
     (case Int16Array data of
        Inl e \<Rightarrow> Inl e
      | Inr dataInt16 \<Rightarrow>
          (let frameCount = length dataInt16 div numChannels
           in if numChannels = 0 \<or> frameCount = 0 then Inl NotSupportedError
              else Inr \<lparr> numberOfChannels = numChannels,
                         buf_length = frameCount,
                         sampleRate = rate,
                         channelData =
                           map (\<lambda>channel.
                                  map (\<lambda>i. real_of_int (sint (dataInt16 ! (i * numChannels + channel)))
                                            / 32768)
                                      [0 ..< frameCount])
                               [0 ..< numChannels] \<rparr>))"

text \<open>The defaults of the two optional parameters: 24000 Hz, one channel.\<close>

definition decodeAudioData_default :: "byte list \<Rightarrow> js_error + AudioBuffer" where
  "decodeAudioData_default data = decodeAudioData data 24000 1"

text \<open>The whole path from a raw payload to a playable buffer, as the callers chain it.\<close>

definition decode_payload :: "string \<Rightarrow> js_error + AudioBuffer" where
  "decode_payload base64 =
     (case decodeBase64 base64 of
        Inl e \<Rightarrow> Inl e
      | Inr raw \<Rightarrow> decodeAudioData_default raw)"

subsection \<open>The encoder of the round trip\<close>

text \<open>
  The repository only decodes: the payload comes from the speech service. The round trip
  is stated against the standard base64 encoding (RFC 4648, with padding) of the samples
  laid out as 16-bit little-endian PCM, which is the format the decoder expects.
\<close>

definition b64_char :: "nat \<Rightarrow> char" where
  "b64_char n = b64_alphabet ! n"

fun encodeBase64 :: "byte list \<Rightarrow> string" where
  "encodeBase64 (x # y # z # rest) =
     (let n = (unat x * 256 + unat y) * 256 + unat z
      in b64_char (n div 262144) # b64_char (n div 4096 mod 64) # b64_char (n div 64 mod 64)
         # b64_char (n mod 64) # encodeBase64 rest)"
| "encodeBase64 [x, y] =
     (let n = unat x * 256 + unat y
      in [b64_char (n div 1024), b64_char (n div 16 mod 64), b64_char (n mod 16 * 4), CHR ''=''])"
| "encodeBase64 [x] =
     [b64_char (unat x div 4), b64_char (unat x mod 4 * 16), CHR ''='', CHR ''='']"
| "encodeBase64 [] = []"

fun pcm16_bytes :: "16 word list \<Rightarrow> byte list" where
  "pcm16_bytes [] = []"
| "pcm16_bytes (w # ws) = word_of_nat (unat w mod 256) # word_of_nat (unat w div 256) # pcm16_bytes ws"

definition encode_samples :: "16 word list \<Rightarrow> string" where
  "encode_samples ws = encodeBase64 (pcm16_bytes ws)"

text \<open>
  The encoder in two parts, for the proofs: the sextets of the unpadded text and the number
  of padding characters.
\<close>

fun enc_sextets :: "byte list \<Rightarrow> nat list" where
  "enc_sextets (x # y # z # rest) =
     (let n = (unat x * 256 + unat y) * 256 + unat z
      in n div 262144 # n div 4096 mod 64 # n div 64 mod 64 # n mod 64 # enc_sextets rest)"
| "enc_sextets [x, y] =
     (let n = unat x * 256 + unat y in [n div 1024, n div 16 mod 64, n mod 16 * 4])"
| "enc_sextets [x] = [unat x div 4, unat x mod 4 * 16]"
| "enc_sextets [] = []"

fun enc_padding :: "byte list \<Rightarrow> nat" where
  "enc_padding (x # y # z # rest) = enc_padding rest"
| "enc_padding [x, y] = 1"
| "enc_padding [x] = 2"
| "enc_padding [] = 0"

section \<open>The story document (types)\<close>

text \<open>
  A JavaScript number, as far as the code below can tell numbers apart: \<open>NaN\<close> (the result
  of \<^verbatim>\<open>parseInt\<close> on a text without digits) or a real value.
\<close>

datatype jsnum = NaN | Num real

datatype TransitionType = Fade | SlideLeft | SlideRight | ZoomIn | ZoomOut | NoTransition

record TransitionSettings =
  ttype :: TransitionType
  duration :: jsnum

record Scene =
  scene_id :: int
  narrative :: string
  imagePrompt :: string
  imageData :: "string option"
  audioData :: "AudioBuffer option"
  audioBase64 :: "string option"
  transition :: "TransitionSettings option"

text \<open>\<^verbatim>\<open>MusicMood\<close> is a union of string literals; the synthesizer receives it as a string.\<close>

record Story =
  title :: string
  scenes :: "Scene list"
  backgroundMusic :: "string option"

datatype AppState =
  IDLE | GENERATING_SCRIPT | GENERATING_ASSETS | REVIEW_STORY | PLAYING | EXPORTING | ERROR

record GenerationProgress =
  totalScenes :: nat
  completedScenes :: nat
  currentStep :: string

section \<open>Draft restoration (App, \<^verbatim>\<open>handleLoadDraft\<close>)\<close>

text \<open>
  The state of the \<^verbatim>\<open>App\<close> component, and the console: one entry per warning, holding the
  identifier of the scene and the exception caught.
\<close>

record App =
  appState :: AppState
  story :: "Story option"
  progress :: "GenerationProgress option"
  error :: "string option"
  console :: "(int \<times> js_error) list"



section \<open>The editor (StoryEditor)\<close>

subsection \<open>\<^verbatim>\<open>updateSceneTransition\<close> and the duration input\<close>

text \<open>
  \<^verbatim>\<open>newScenes[index] = {...newScenes[index], transition: {type, duration}}\<close>. The editor
  calls it with the index of a rendered scene. For an index beyond the list JavaScript
  would extend the array with holes and a scene holding nothing but a transition, which
  is no \<^verbatim>\<open>Scene\<close>; the model returns \<open>None\<close> there.
\<close>

definition updateSceneTransition :: "Story \<Rightarrow> nat \<Rightarrow> TransitionType \<Rightarrow> jsnum \<Rightarrow> Story option" where
  "updateSceneTransition st index ty d =
     (if index < length (scenes st)
      then Some (st\<lparr>scenes := (scenes st)[index :=
                   (scenes st ! index)\<lparr>transition := Some \<lparr>ttype = ty, duration = d\<rparr>\<rparr>]\<rparr>)
      else None)"

text \<open>
  \<^verbatim>\<open>parseInt\<close> on the text of the number input: leading white space, an optional sign, then
  the longest run of decimal digits; \<open>NaN\<close> when there is no digit. (A number input never
  holds a hexadecimal prefix.)
\<close>

definition is_digit :: "char \<Rightarrow> bool" where
  "is_digit c \<longleftrightarrow> 48 \<le> (of_char c :: nat) \<and> (of_char c :: nat) \<le> 57"

definition digits_value :: "string \<Rightarrow> int" where
  "digits_value ds = foldl (\<lambda>acc c. acc * 10 + (int (of_char c) - 48)) 0 ds"

definition parseInt :: "string \<Rightarrow> jsnum" where
  "parseInt s =
     (let t = dropWhile is_ascii_whitespace s;
          neg = (t \<noteq> [] \<and> hd t = CHR ''-'');
          u = (if t \<noteq> [] \<and> (hd t = CHR ''-'' \<or> hd t = CHR ''+'') then tl t else t);
          ds = takeWhile is_digit u
      in if ds = [] then NaN
         else Num (real_of_int (if neg then - digits_value ds else digits_value ds)))"

text \<open>
  The \<^verbatim>\<open>onChange\<close> handler of the duration input (declared with \<^verbatim>\<open>min="100" max="5000"\<close>):
  \<^verbatim>\<open>updateSceneTransition(index, scene.transition?.type || 'fade', parseInt(e.target.value))\<close>.
\<close>

definition duration_input_min :: real where
  "duration_input_min = 100"

definition duration_input_max :: real where
  "duration_input_max = 5000"

definition onChange_duration :: "Story \<Rightarrow> nat \<Rightarrow> string \<Rightarrow> Story option" where
  "onChange_duration st index text =
     (if index < length (scenes st)
      then updateSceneTransition st index
             (case transition (scenes st ! index) of None \<Rightarrow> Fade | Some t \<Rightarrow> ttype t)
             (parseInt text)
      else None)"

subsection \<open>\<^verbatim>\<open>handleSave\<close>\<close>

datatype SaveStatus = Idle | Saving | Saved | Partial | Error

text \<open>
  \<^verbatim>\<open>const { audioData, ...rest } = scene\<close> drops the decoded buffer; a field set to
  \<^verbatim>\<open>undefined\<close> is left out by \<^verbatim>\<open>JSON.stringify\<close>.
\<close>

definition prepareStoryForSave :: "Story \<Rightarrow> bool \<Rightarrow> bool \<Rightarrow> Story" where
  "prepareStoryForSave s stripImages stripAudio =
     s\<lparr>scenes :=
          map (\<lambda>scene. scene\<lparr> audioData := None,
                                imageData := (if stripImages then None else imageData scene),
                                audioBase64 := (if stripAudio then None else audioBase64 scene) \<rparr>)
              (scenes s)\<rparr>"

text \<open>
  \<^verbatim>\<open>localStorage.setItem('koko_story_draft', JSON.stringify(x))\<close> is a parameter: it either
  stores the document (\<open>None\<close>) or throws. The result of \<open>handleSave\<close> is the status shown
  and the document written under the key, if any attempt succeeded.
\<close>

definition is_quota_error :: "js_error \<Rightarrow> bool" where
  "is_quota_error e \<longleftrightarrow> e = QuotaExceededError \<or> e = NS_ERROR_DOM_QUOTA_REACHED"

definition handleSave :: "(Story \<Rightarrow> js_error option) \<Rightarrow> Story \<Rightarrow> SaveStatus \<times> Story option" where
  "handleSave setItem st =
     (let fullStory = prepareStoryForSave st False False in
      case setItem fullStory of
        None \<Rightarrow> (Saved, Some fullStory)
      | Some e \<Rightarrow>
          if is_quota_error e then
            (let noImagesStory = prepareStoryForSave st True False in
             case setItem noImagesStory of
               None \<Rightarrow> (Partial, Some noImagesStory)
             | Some e2 \<Rightarrow>
                 (let textOnlyStory = prepareStoryForSave st True True in
                  case setItem textOnlyStory of
                    None \<Rightarrow> (Partial, Some textOnlyStory)
                  | Some e3 \<Rightarrow> (Error, None)))
          else (Error, None))"

text \<open>The timer set at the end of \<open>handleSave\<close>, 3000 ms later.\<close>

definition handleSave_timeout :: "SaveStatus \<Rightarrow> SaveStatus" where
  "handleSave_timeout prev = (if prev = Error then Error else Idle)"


section \<open>The ambient synthesizer (utils/audio, \<^verbatim>\<open>AmbientGenerator\<close>)\<close>

text \<open>
  Time is a real number of milliseconds. The audio context is taken to be running, so
  that \<^verbatim>\<open>ctx.currentTime\<close> (in seconds) advances with the clock of the timers:
  \<^verbatim>\<open>ctx.currentTime\<close> is \<open>now / 1000\<close>, and \<^verbatim>\<open>now + 1\<close> of the source is \<open>now + 1000\<close> here.
\<close>

subsection \<open>The automation timeline of an \<^verbatim>\<open>AudioParam\<close>\<close>

datatype automation =
    SetValue real real      \<comment> \<open>\<^verbatim>\<open>setValueAtTime(value, time)\<close>\<close>
  | LinearRamp real real    \<comment> \<open>\<^verbatim>\<open>linearRampToValueAtTime(value, endTime)\<close>\<close>

fun ev_time :: "automation \<Rightarrow> real" where
  "ev_time (SetValue v t) = t"
| "ev_time (LinearRamp v t) = t"

text \<open>\<^verbatim>\<open>cancelScheduledValues(t)\<close> removes every event whose time is \<open>t\<close> or later.\<close>

definition cancelScheduledValues :: "real \<Rightarrow> automation list \<Rightarrow> automation list" where
  "cancelScheduledValues t evs = filter (\<lambda>e. ev_time e < t) evs"

text \<open>An event is inserted by time, after the events that have the same time.\<close>

definition insert_event :: "automation \<Rightarrow> automation list \<Rightarrow> automation list" where
  "insert_event e evs =
     takeWhile (\<lambda>x. ev_time x \<le> ev_time e) evs @ [e] @ dropWhile (\<lambda>x. ev_time x \<le> ev_time e) evs"

text \<open>
  The value of the parameter at time \<open>t\<close>, from the last anchor \<open>(t0, v0)\<close>: an event in the
  future of \<open>t\<close> ends the walk; if that event is a linear ramp, the value is interpolated
  between the anchor and the end of the ramp.
\<close>

fun value_from :: "real \<Rightarrow> real \<Rightarrow> automation list \<Rightarrow> real \<Rightarrow> real" where
  "value_from t0 v0 [] t = v0"
| "value_from t0 v0 (SetValue v t1 # es) t =
     (if t < t1 then v0 else value_from t1 v es t)"
| "value_from t0 v0 (LinearRamp v t1 # es) t =
     (if t < t1 then (if t \<le> t0 then v0 else v0 + (v - v0) * ((t - t0) / (t1 - t0)))
      else value_from t1 v es t)"

subsection \<open>The nodes\<close>

datatype node_kind = OscillatorNode | GainNode | BiquadFilterNode

datatype target = ToNode nat | ToFrequency nat | ToMaster

record AudioNode =
  kind :: node_kind
  ntype :: string                \<comment> \<open>the wave form of an oscillator, the type of a filter\<close>
  frequency :: real
  gain :: real
  start_time :: "real option"    \<comment> \<open>the argument of \<^verbatim>\<open>start\<close>, once called\<close>
  stop_calls :: nat
  disconnect_calls :: nat
  outputs :: "target list"

definition oscillator :: "string \<Rightarrow> real \<Rightarrow> AudioNode" where
  "oscillator ty f = \<lparr> kind = OscillatorNode, ntype = ty, frequency = f, gain = 0,
                       start_time = None, stop_calls = 0, disconnect_calls = 0, outputs = [] \<rparr>"

definition gain_node :: "real \<Rightarrow> AudioNode" where
  "gain_node g = \<lparr> kind = GainNode, ntype = [], frequency = 0, gain = g,
                   start_time = None, stop_calls = 0, disconnect_calls = 0, outputs = [] \<rparr>"

definition biquad_filter :: "string \<Rightarrow> real \<Rightarrow> AudioNode" where
  "biquad_filter ty f = \<lparr> kind = BiquadFilterNode, ntype = ty, frequency = f, gain = 0,
                          start_time = None, stop_calls = 0, disconnect_calls = 0, outputs = [] \<rparr>"

text \<open>
  \<^verbatim>\<open>OscillatorNode.stop()\<close> throws an \<^verbatim>\<open>InvalidStateError\<close> when \<^verbatim>\<open>start\<close> has not been called;
  \<^verbatim>\<open>disconnect()\<close> removes every outgoing connection and never throws.
\<close>

definition node_stop :: "AudioNode \<Rightarrow> js_error + AudioNode" where
  "node_stop n =
     (if start_time n = None then Inl InvalidStateError
      else Inr (n\<lparr>stop_calls := Suc (stop_calls n)\<rparr>))"

definition node_disconnect :: "AudioNode \<Rightarrow> AudioNode" where
  "node_disconnect n = n\<lparr>outputs := [], disconnect_calls := Suc (disconnect_calls n)\<rparr>"

subsection \<open>The generator\<close>

text \<open>
  \<open>graph\<close> holds every node the generator has created, a node being named by its index;
  \<open>nodes\<close> is \<^verbatim>\<open>this.nodes\<close>. The master gain is kept apart: its intrinsic value and the
  timeline of its \<^verbatim>\<open>gain\<close> parameter. \<open>timers\<close> are the due times of the pending callbacks
  of \<^verbatim>\<open>stop\<close>.
\<close>

record AmbientGenerator =
  now :: real
  graph :: "AudioNode list"
  nodes :: "nat list"
  master_intrinsic :: real
  master_events :: "automation list"
  timers :: "real list"

definition new_AmbientGenerator :: "real \<Rightarrow> AmbientGenerator" where
  "new_AmbientGenerator t =
     \<lparr> now = t, graph = [], nodes = [], master_intrinsic = 0.05, master_events = [],
       timers = [] \<rparr>"

definition master_gain_at :: "AmbientGenerator \<Rightarrow> real \<Rightarrow> real" where
  "master_gain_at a t = value_from 0 (master_intrinsic a) (master_events a) t"

text \<open>\<^verbatim>\<open>this.masterGain.gain.value\<close>, read now.\<close>

definition master_gain_value :: "AmbientGenerator \<Rightarrow> real" where
  "master_gain_value a = master_gain_at a (now a)"

definition setVolume :: "real \<Rightarrow> AmbientGenerator \<Rightarrow> AmbientGenerator" where
  "setVolume volume a =
     a\<lparr>master_events := insert_event (SetValue volume (now a)) (master_events a)\<rparr>"

definition new_node :: "AudioNode \<Rightarrow> AmbientGenerator \<Rightarrow> AmbientGenerator" where
  "new_node n a = a\<lparr>graph := graph a @ [n]\<rparr>"

definition connect :: "nat \<Rightarrow> target \<Rightarrow> AmbientGenerator \<Rightarrow> AmbientGenerator" where
  "connect i tg a = a\<lparr>graph := (graph a)[i := (graph a ! i)\<lparr>outputs := outputs (graph a ! i) @ [tg]\<rparr>]\<rparr>"

definition node_start :: "nat \<Rightarrow> real \<Rightarrow> AmbientGenerator \<Rightarrow> AmbientGenerator" where
  "node_start i t a = a\<lparr>graph := (graph a)[i := (graph a ! i)\<lparr>start_time := Some t\<rparr>]\<rparr>"

definition push :: "nat \<Rightarrow> AmbientGenerator \<Rightarrow> AmbientGenerator" where
  "push i a = a\<lparr>nodes := nodes a @ [i]\<rparr>"

text \<open>
  \<^verbatim>\<open>createOscillator(freq, type, delay, filter, lfo)\<close>; \<open>delay\<close> is in seconds and
  \<open>filt\<close> stands for \<^verbatim>\<open>filter\<close>. The modulator
  pair is created whenever \<open>lfo\<close> is set, but connected, started and recorded only when
  the last node is a filter.
\<close>

definition createOscillator ::
  "real \<Rightarrow> string \<Rightarrow> real \<Rightarrow> bool \<Rightarrow> bool \<Rightarrow> AmbientGenerator \<Rightarrow> AmbientGenerator" where
  "createOscillator freq ty delay filt lfo a0 =
     (let osc = length (graph a0);
          a = new_node (oscillator ty freq) a0;
          gn = length (graph a);
          a = new_node (gain_node 0.15) a;
          biquad = length (graph a);
          a = (if filt then connect osc (ToNode biquad) (new_node (biquad_filter ''lowpass'' 400) a)
               else a);
          lastNode = (if filt then biquad else osc);
          lfoOsc = length (graph a);
          lfoGain = Suc lfoOsc;
          a = (if lfo
               then (let a = new_node (gain_node 200) (new_node (oscillator ''sine'' 0.5) a)
                     in if kind (graph a ! lastNode) = BiquadFilterNode
                        then push lfoGain (push lfoOsc (node_start lfoOsc (now a)
                               (connect lfoGain (ToFrequency lastNode)
                                 (connect lfoOsc (ToNode lfoGain) a))))
                        else a)
               else a);
          a = connect lastNode (ToNode gn) a;
          a = connect gn ToMaster a;
          a = node_start osc (now a + delay * 1000) a;
          a = push osc a;
          a = push gn a
      in if lastNode \<noteq> osc then push lastNode a else a)"

text \<open>
  The callback of the timer of \<^verbatim>\<open>stop\<close>: for every node of \<^verbatim>\<open>this.nodes\<close>, as the list is
  when the timer fires, \<^verbatim>\<open>try { if (node instanceof OscillatorNode) node.stop(); node.disconnect(); } catch(e) {}\<close>,
  then \<^verbatim>\<open>this.nodes = []\<close>. An exception of \<^verbatim>\<open>stop\<close> skips the \<^verbatim>\<open>disconnect\<close> of that node
  and is swallowed.
\<close>

definition teardown_node :: "AudioNode list \<Rightarrow> nat \<Rightarrow> AudioNode list" where
  "teardown_node g i =
     (if i < length g
      then (case (if kind (g ! i) = OscillatorNode then node_stop (g ! i) else Inr (g ! i)) of
              Inl e \<Rightarrow> g
            | Inr n \<Rightarrow> g[i := node_disconnect n])
      else g)"

definition teardown :: "AmbientGenerator \<Rightarrow> AmbientGenerator" where
  "teardown a = a\<lparr>graph := foldl teardown_node (graph a) (nodes a), nodes := []\<rparr>"

text \<open>
  \<^verbatim>\<open>stop()\<close>. The value read from \<^verbatim>\<open>gain.value\<close> is the one being rendered, that of the
  timeline before the cancellation.
\<close>

definition stop :: "AmbientGenerator \<Rightarrow> AmbientGenerator" where
  "stop a =
     (let t = now a;
          v = master_gain_value a;
          evs = cancelScheduledValues t (master_events a);
          evs = insert_event (SetValue v t) evs;
          evs = insert_event (LinearRamp 0 (t + 1000)) evs
      in a\<lparr>master_events := evs, timers := timers a @ [t + 1100]\<rparr>)"

definition play :: "string \<Rightarrow> AmbientGenerator \<Rightarrow> AmbientGenerator" where
  "play mood a0 =
     (let a = stop a0 in
      if mood = ''none'' \<or> mood = [] then a
      else
        (let t = now a;
             evs = cancelScheduledValues t (master_events a);
             evs = insert_event (SetValue 0 t) evs;
             evs = insert_event (LinearRamp 0.08 (t + 2000)) evs;
             a = a\<lparr>master_events := evs\<rparr>
         in if mood = ''ethereal'' then
              createOscillator 415.30 ''triangle'' 0.1 True False
                (createOscillator 329.63 ''sine'' 0.2 False False
                  (createOscillator 277.18 ''sine'' 0.1 False False
                    (createOscillator 220.00 ''sine'' 0 False False a)))
            else if mood = ''suspense'' then
              createOscillator 116.50 ''sine'' 0.1 False False
                (createOscillator 110.00 ''triangle'' 0 False False
                  (createOscillator 55.00 ''sawtooth'' 0 True False a))
            else if mood = ''scifi'' then
              createOscillator 220 ''square'' 0 True False
                (createOscillator 110 ''sawtooth'' 0 True True a)
            else a))"

text \<open>
  The passing of \<open>dt\<close> milliseconds: every timer that is due fires, in the order the timers
  were set.
\<close>

definition elapse :: "real \<Rightarrow> AmbientGenerator \<Rightarrow> AmbientGenerator" where
  "elapse dt a =
     (let t = now a + dt;
          due = filter (\<lambda>d. d \<le> t) (timers a);
          a' = fold (\<lambda>d. teardown) due a
      in a'\<lparr>now := t, timers := filter (\<lambda>d. \<not> d \<le> t) (timers a)\<rparr>)"

text \<open>The nodes that feed the master gain: the voices that are heard.\<close>

definition voices :: "AmbientGenerator \<Rightarrow> nat list" where
  "voices a = filter (\<lambda>i. ToMaster \<in> set (outputs (graph a ! i))) [0 ..< length (graph a)]"


section \<open>The scene playback scheduler (StoryPlayer)\<close>

subsection \<open>Timers\<close>

text \<open>
  \<^verbatim>\<open>setTimeout(f, delay)\<close> converts the delay to a 32-bit signed integer (truncation, modulo
  \<open>2^32\<close>) and takes a negative result as 0.
\<close>

definition to_int32 :: "real \<Rightarrow> int" where
  "to_int32 x =
     (let n = (if 0 \<le> x then \<lfloor>x\<rfloor> else \<lceil>x\<rceil>)
      in (n + 2147483648) mod 4294967296 - 2147483648)"

definition timer_delay :: "real \<Rightarrow> real" where
  "timer_delay x = (let n = to_int32 x in if n < 0 then 0 else real_of_int n)"

subsection \<open>The state of the component and of its surroundings\<close>

datatype TransitionStage = Enter | Active | Exit

text \<open>
  What a pending callback will do: the two timers of the component, the two nested
  animation-frame callbacks of \<open>playScene\<close>, and the \<^verbatim>\<open>ended\<close> event of a narration source.
\<close>

datatype callback =
    AdvanceNext nat       \<comment> \<open>\<^verbatim>\<open>() => advanceNext(index)\<close>, after 3000 ms\<close>
  | PlayScene nat         \<comment> \<open>\<^verbatim>\<open>() => playScene(currentIndex + 1)\<close>, after half the transition\<close>
  | OuterFrame            \<comment> \<open>the outer \<^verbatim>\<open>requestAnimationFrame\<close> callback\<close>
  | InnerFrame            \<comment> \<open>\<^verbatim>\<open>() => setLayoutStage('active')\<close>\<close>
  | Ended nat             \<comment> \<open>the \<^verbatim>\<open>ended\<close> event of the source with this number\<close>

text \<open>
  An \<^verbatim>\<open>AudioBufferSourceNode\<close>: its buffer, whether it is connected to
  \<^verbatim>\<open>ctx.destination\<close>, the scene index its \<^verbatim>\<open>onended\<close> handler advances from (\<open>None\<close> once the
  handler is cleared), and whether \<^verbatim>\<open>start\<close> and \<^verbatim>\<open>stop\<close> were called.
\<close>

record BufferSource =
  src_buffer :: AudioBuffer
  to_destination :: bool
  onended :: "nat option"
  started :: bool
  stopped :: bool

text \<open>
  The component's state and refs, then its surroundings: the clock (ms), the pending
  callbacks (handle, due time, action) in the order they were set, the next handle, the
  time between two animation frames, and every narration source created so far.
\<close>

record Player =
  props_story :: Story
  currentSceneIndex :: nat
  isPlaying :: bool
  isFinished :: bool
  isMuted :: bool
  layoutStage :: TransitionStage
  audioSourceRef :: "nat option"
  transitionTimeoutRef :: "nat option"
  musicPlayerRef :: "AmbientGenerator option"
  isPlayingRef :: bool
  clock :: real
  pending :: "(nat \<times> real \<times> callback) list"
  next_handle :: nat
  frame_period :: real
  sources :: "BufferSource list"

text \<open>The duration of a buffer in milliseconds: \<^verbatim>\<open>buffer.duration * 1000\<close>.\<close>

definition duration_ms :: "AudioBuffer \<Rightarrow> real" where
  "duration_ms b = real (buf_length b) / real (sampleRate b) * 1000"

definition schedule :: "real \<Rightarrow> callback \<Rightarrow> Player \<Rightarrow> Player" where
  "schedule due cb p =
     p\<lparr>pending := pending p @ [(next_handle p, due, cb)], next_handle := Suc (next_handle p)\<rparr>"

text \<open>
  \<open>setTimeout_ref\<close> is \<^verbatim>\<open>transitionTimeoutRef.current = window.setTimeout(cb, delay)\<close>.
\<close>

definition setTimeout_ref :: "callback \<Rightarrow> real \<Rightarrow> Player \<Rightarrow> Player" where
  "setTimeout_ref cb delay p =
     (schedule (clock p + timer_delay delay) cb p)\<lparr>transitionTimeoutRef := Some (next_handle p)\<rparr>"

definition requestAnimationFrame :: "callback \<Rightarrow> Player \<Rightarrow> Player" where
  "requestAnimationFrame cb p = schedule (clock p + frame_period p) cb p"

definition clearTimeout :: "nat \<Rightarrow> Player \<Rightarrow> Player" where
  "clearTimeout h p = p\<lparr>pending := filter (\<lambda>(h', due, cb). h' \<noteq> h) (pending p)\<rparr>"

text \<open>
  What the component does to its synthesizer happens at the time of the component's
  clock: the synthesizer is first brought to that time.
\<close>

definition with_music :: "(AmbientGenerator \<Rightarrow> AmbientGenerator) \<Rightarrow> Player \<Rightarrow> Player" where
  "with_music f p =
     p\<lparr>musicPlayerRef := map_option (\<lambda>a. f (elapse (clock p - now a) a)) (musicPlayerRef p)\<rparr>"

subsection \<open>\<open>stopAudio\<close>\<close>

text \<open>
  \<^verbatim>\<open>onended = null\<close>, then \<^verbatim>\<open>stop()\<close>, which throws when the source was never started; the
  exception is swallowed. The \<^verbatim>\<open>ended\<close> event that \<^verbatim>\<open>stop\<close> raises finds no handler, so
  the pending event of the source is dropped.
\<close>

definition source_stop :: "nat \<Rightarrow> Player \<Rightarrow> Player" where
  "source_stop i p =
     (let s = (sources p ! i)\<lparr>onended := None\<rparr>;
          s = (if started s then s\<lparr>stopped := True\<rparr> else s)
      in p\<lparr>sources := (sources p)[i := s],
           pending := filter (\<lambda>(h, due, cb). cb \<noteq> Ended i) (pending p)\<rparr>)"

definition stopAudio :: "Player \<Rightarrow> Player" where
  "stopAudio p0 =
     (let p = (case audioSourceRef p0 of
                 None \<Rightarrow> p0
               | Some i \<Rightarrow> (source_stop i p0)\<lparr>audioSourceRef := None\<rparr>)
      in case transitionTimeoutRef p of
           None \<Rightarrow> p
         | Some h \<Rightarrow> (clearTimeout h p)\<lparr>transitionTimeoutRef := None\<rparr>)"

subsection \<open>\<open>playScene\<close> and \<open>advanceNext\<close>\<close>

text \<open>
  The audio context is taken to be running, so \<open>playScene\<close> runs to its end without
  waiting. For an index beyond the scenes \<^verbatim>\<open>scene.audioData\<close> throws, and the function ends
  there with the state set so far.
\<close>

definition playScene :: "nat \<Rightarrow> Player \<Rightarrow> Player" where
  "playScene index p0 =
     (let p = stopAudio p0;
          p = p\<lparr>currentSceneIndex := index, isFinished := False, isPlaying := True,
                 isPlayingRef := True, layoutStage := Enter\<rparr>;
          p = requestAnimationFrame OuterFrame p
      in if \<not> index < length (scenes (props_story p)) then p
         else
           (case audioData (scenes (props_story p) ! index) of
              None \<Rightarrow> setTimeout_ref (AdvanceNext index) 3000 p
            | Some buf \<Rightarrow>
                (let source = length (sources p);
                     p = p\<lparr>sources := sources p @
                             [\<lparr> src_buffer = buf, to_destination = True, onended = None,
                                started = False, stopped = False \<rparr>]\<rparr>;
                     p = p\<lparr>audioSourceRef := Some source\<rparr>;
                     p = p\<lparr>sources := (sources p)[source := (sources p ! source)\<lparr>onended := Some index\<rparr>]\<rparr>;
                     p = p\<lparr>sources := (sources p)[source := (sources p ! source)\<lparr>started := True\<rparr>]\<rparr>
                 in schedule (clock p + duration_ms buf) (Ended source) p)))"

text \<open>\<^verbatim>\<open>nextScene.transition?.duration || 1000\<close>: absent, \<open>NaN\<close> and 0 give 1000.\<close>

definition transitionDuration :: "Scene \<Rightarrow> real" where
  "transitionDuration nextScene =
     (case transition nextScene of
        None \<Rightarrow> 1000
      | Some t \<Rightarrow> (case duration t of NaN \<Rightarrow> 1000 | Num d \<Rightarrow> if d = 0 then 1000 else d))"

definition advanceNext :: "nat \<Rightarrow> Player \<Rightarrow> Player" where
  "advanceNext currentIndex p =
     (if int currentIndex < int (length (scenes (props_story p))) - 1
      then (let nextScene = scenes (props_story p) ! (currentIndex + 1);
                p = p\<lparr>layoutStage := Exit\<rparr>
            in setTimeout_ref (PlayScene (currentIndex + 1)) (transitionDuration nextScene / 2) p)
      else with_music stop
             (p\<lparr>isFinished := True, isPlaying := False, isPlayingRef := False\<rparr>))"

subsection \<open>Mounting, and the mute toggle\<close>

text \<open>
  The two effects that run when the component mounts, in their order: the synthesizer is
  created and started unless the story has no music, scene 0 is played, and the mute
  effect sets the volume for the initial flag.
\<close>

definition mute_effect :: "Player \<Rightarrow> Player" where
  "mute_effect p = with_music (setVolume (if isMuted p then 0 else 0.08)) p"

definition mount :: "Story \<Rightarrow> real \<Rightarrow> real \<Rightarrow> Player" where
  "mount st t0 frame =
     (let a = new_AmbientGenerator t0;
          a = (case backgroundMusic st of
                 None \<Rightarrow> a
               | Some mood \<Rightarrow> if mood \<noteq> [] \<and> mood \<noteq> ''none'' then play mood a else a);
          p = \<lparr> props_story = st, currentSceneIndex = 0, isPlaying = False, isFinished = False,
                isMuted = False, layoutStage = Active, audioSourceRef = None,
                transitionTimeoutRef = None, musicPlayerRef = Some a, isPlayingRef = False,
                clock = t0, pending = [], next_handle = 1, frame_period = frame,
                sources = [] \<rparr>
      in mute_effect (playScene 0 p))"

text \<open>The mute button: \<^verbatim>\<open>setIsMuted(!isMuted)\<close>, after which the mute effect runs.\<close>

definition toggleMute :: "Player \<Rightarrow> Player" where
  "toggleMute p = mute_effect (p\<lparr>isMuted := \<not> isMuted p\<rparr>)"

subsection \<open>The event loop\<close>

text \<open>The pending callback that is due first; among equal due times, the one set first.\<close>

fun next_event :: "(nat \<times> real \<times> callback) list \<Rightarrow> (nat \<times> real \<times> callback) option" where
  "next_event [] = None"
| "next_event (e # es) =
     (case next_event es of
        None \<Rightarrow> Some e
      | Some e' \<Rightarrow> if fst (snd e') < fst (snd e) then Some e' else Some e)"

definition run_callback :: "callback \<Rightarrow> Player \<Rightarrow> Player" where
  "run_callback cb p =
     (case cb of
        AdvanceNext i \<Rightarrow> advanceNext i p
      | PlayScene i \<Rightarrow> playScene i p
      | OuterFrame \<Rightarrow> requestAnimationFrame InnerFrame p
      | InnerFrame \<Rightarrow> p\<lparr>layoutStage := Active\<rparr>
      | Ended i \<Rightarrow>
          (case onended (sources p ! i) of
             None \<Rightarrow> p
           | Some index \<Rightarrow> if isPlayingRef p then advanceNext index p else p))"

definition fire :: "nat \<times> real \<times> callback \<Rightarrow> Player \<Rightarrow> Player" where
  "fire e p =
     run_callback (snd (snd e))
       (p\<lparr>clock := max (clock p) (fst (snd e)),
           pending := filter (\<lambda>e'. fst e' \<noteq> fst e) (pending p)\<rparr>)"

text \<open>
  The states the player goes through when it is left alone: the state after each callback,
  until none is pending or the fuel is used up.
\<close>

fun run :: "nat \<Rightarrow> Player \<Rightarrow> Player list" where
  "run 0 p = []"
| "run (Suc n) p =
     (case next_event (pending p) of
        None \<Rightarrow> []
      | Some e \<Rightarrow> fire e p # run n (fire e p))"

text \<open>What is seen of a state: the time, the scene, the stage, playing, finished.\<close>

definition view :: "Player \<Rightarrow> real \<times> nat \<times> TransitionStage \<times> bool \<times> bool" where
  "view p = (clock p, currentSceneIndex p, layoutStage p, isPlaying p, isFinished p)"


section \<open>The export pipeline (VideoExporter)\<close>

text \<open>
  What the surroundings decide for one scene: the event the image element answers with,
  and when (ms after \<^verbatim>\<open>img.src\<close> is set), and the animation frames that run the \<^verbatim>\<open>render\<close>
  callback before the timer of the scene cancels the loop, each given by its
  \<^verbatim>\<open>time - startTime\<close>.
\<close>

datatype image_event = LoadEvent real | ErrorEvent real | NoEvent

record scene_env =
  image :: image_event
  frames :: "real list"

text \<open>
  The state of the component (\<open>progress\<close>, \<open>currentSceneIndex\<close>, \<open>isDone\<close>), its references
  (\<^verbatim>\<open>recorderRef.current\<close>: no recorder, or a recorder in the state \<^verbatim>\<open>recording\<close> or
  \<^verbatim>\<open>inactive\<close>; \<^verbatim>\<open>isRecordingRef.current\<close>), the music bed, the clock, and a record of what has
  happened: every value passed to \<^verbatim>\<open>setProgress\<close>, and for each scene the time its image
  loaded, its narration was started and its render loop was first requested.
\<close>

datatype RecordingState = inactive | recording

record ExportSession =
  exp_progress :: real
  exp_sceneIndex :: nat
  isDone :: bool
  recorderRef :: "RecordingState option"
  isRecordingRef :: bool
  bed_playing :: bool
  exp_clock :: real
  reported :: "real list"
  loaded :: "(nat \<times> real) list"
  narration_starts :: "(nat \<times> real) list"
  render_starts :: "(nat \<times> real) list"

text \<open>
  How a call ends: it runs to its end, or it waits for ever at
  \<^verbatim>\<open>await new Promise(resolve => img.onload = resolve)\<close> of some scene, or it throws. Each
  outcome carries the session as the call leaves it.
\<close>

datatype outcome = Finished ExportSession | Stalled nat ExportSession | Threw js_error ExportSession

text \<open>
  \<^verbatim>\<open>Math.max(duration, narrationDuration + 500)\<close> with \<^verbatim>\<open>duration = 4000\<close> and a narration
  duration of 0 when the scene has no audio.
\<close>

definition sceneDuration :: "Scene \<Rightarrow> real" where
  "sceneDuration scene =
     max 4000 ((case audioData scene of None \<Rightarrow> 0 | Some b \<Rightarrow> duration_ms b) + 500)"

text \<open>
  The \<^verbatim>\<open>render\<close> callback at one frame, then the next frame if the progress of the scene is
  below 1 and a frame comes before the timer.
\<close>

fun render :: "nat \<Rightarrow> nat \<Rightarrow> real \<Rightarrow> real list \<Rightarrow> ExportSession \<Rightarrow> ExportSession" where
  "render i n d [] s = s"
| "render i n d (elapsed # later) s =
     (let progress = min (elapsed / d) 1;
          value = (real i + progress) / real n * 100;
          s = s\<lparr>exp_progress := value, reported := reported s @ [value]\<rparr>
      in if progress < 1 then render i n d later s else s)"

text \<open>
  One turn of the loop once the image of scene \<open>i\<close> has loaded, \<open>delay\<close> ms after the turn
  began: the narration is started if the scene has one, the first frame is requested, the
  frames render, and the scene lasts until its timer fires.
\<close>

definition after_load ::
  "nat \<Rightarrow> nat \<Rightarrow> Scene \<Rightarrow> real list \<Rightarrow> real \<Rightarrow> ExportSession \<Rightarrow> ExportSession" where
  "after_load i n scene fs delay s0 =
     (let startTime = exp_clock s0 + delay;
          s = s0\<lparr>exp_clock := startTime, loaded := loaded s0 @ [(i, startTime)]\<rparr>;
          s = (case audioData scene of
                 None \<Rightarrow> s
               | Some b \<Rightarrow> s\<lparr>narration_starts := narration_starts s @ [(i, startTime)]\<rparr>);
          d = sceneDuration scene;
          s = s\<lparr>render_starts := render_starts s @ [(i, startTime)]\<rparr>;
          s = render i n d fs s
      in s\<lparr>exp_clock := startTime + timer_delay d\<rparr>)"

text \<open>
  The event the image element answers with after \<^verbatim>\<open>img.src = scene.imageData || ''\<close>. With no
  image data, or empty image data, the source is the empty string, for which the HTML
  standard has the element fire an error event, and no load event, whatever the
  surroundings; otherwise the surroundings decide.
\<close>

definition image_answer :: "Scene \<Rightarrow> scene_env \<Rightarrow> image_event" where
  "image_answer scene e =
     (case imageData scene of
        None \<Rightarrow> ErrorEvent 0
      | Some src \<Rightarrow> if src = [] then ErrorEvent 0 else image e)"

text \<open>
  The loop over the scenes, from scene \<open>i\<close>. Only the load event resolves the promise the
  loop awaits; the image has no \<^verbatim>\<open>onerror\<close> handler, and the wait has no timeout.
\<close>

fun scene_loop :: "nat \<Rightarrow> nat \<Rightarrow> Scene list \<Rightarrow> (nat \<Rightarrow> scene_env) \<Rightarrow> ExportSession \<Rightarrow> outcome" where
  "scene_loop i n [] env s = Finished s"
| "scene_loop i n (scene # rest) env s0 =
     (let s = s0\<lparr>exp_sceneIndex := i\<rparr>
      in case image_answer scene (env i) of
           LoadEvent delay \<Rightarrow>
             scene_loop (Suc i) n rest env (after_load i n scene (frames (env i)) delay s)
         | ErrorEvent delay \<Rightarrow> Stalled i s
         | NoEvent \<Rightarrow> Stalled i s)"

text \<open>
  \<^verbatim>\<open>playAllScenes\<close>: the music bed is started if the story has music, the scenes are played,
  and at the end the bed is stopped, \<^verbatim>\<open>recorderRef.current?.stop()\<close> stops the recorder if
  there is one and it is recording, and \<^verbatim>\<open>isRecordingRef.current\<close> is reset. Stopping the
  recorder fires its \<^verbatim>\<open>onstop\<close> handler, which offers the file and sets \<open>isDone\<close>; with no
  recorder, or an inactive one, \<^verbatim>\<open>stop\<close> does nothing and \<open>isDone\<close> stays as it is.
\<close>

definition playAllScenes :: "Story \<Rightarrow> (nat \<Rightarrow> scene_env) \<Rightarrow> ExportSession \<Rightarrow> outcome" where
  "playAllScenes st env s0 =
     (let s = s0\<lparr>bed_playing := (case backgroundMusic st of
                                     None \<Rightarrow> False
                                   | Some mood \<Rightarrow> mood \<noteq> [] \<and> mood \<noteq> ''none'')\<rparr>
      in case scene_loop 0 (length (scenes st)) (scenes st) env s of
           Finished s' \<Rightarrow>
             (let s' = s'\<lparr>bed_playing := False\<rparr>;
                  s' = (case recorderRef s' of
                          Some recording \<Rightarrow> s'\<lparr>recorderRef := Some inactive, isDone := True\<rparr>
                        | Some inactive \<Rightarrow> s'
                        | None \<Rightarrow> s')
              in Finished (s'\<lparr>isRecordingRef := False\<rparr>))
         | Stalled i s' \<Rightarrow> Stalled i s'
         | Threw e s' \<Rightarrow> Threw e s')"

text \<open>
  The component when its effect calls \<^verbatim>\<open>startExport\<close> at time \<open>t0\<close>: no progress, no recorder,
  nothing on record.
\<close>

definition mounted :: "real \<Rightarrow> ExportSession" where
  "mounted t0 =
     \<lparr> exp_progress = 0, exp_sceneIndex = 0, isDone = False, recorderRef = None,
       isRecordingRef = False, bed_playing = False, exp_clock = t0, reported = [],
       loaded = [], narration_starts = [], render_starts = [] \<rparr>"

text \<open>
  \<^verbatim>\<open>audioDest.getAudioTracks()\<close> in \<^verbatim>\<open>startExport\<close>: \<^verbatim>\<open>audioDest\<close> is the node returned by
  \<^verbatim>\<open>createMediaStreamDestination\<close>. The node has the attribute \<^verbatim>\<open>stream\<close>; \<^verbatim>\<open>getAudioTracks\<close>
  is a method of that stream, not of the node, so the call throws a \<^verbatim>\<open>TypeError\<close>. The
  value would be the number of audio tracks.
\<close>

definition audioDest_getAudioTracks :: "js_error + nat" where
  "audioDest_getAudioTracks = Inl TypeError"

text \<open>
  The session \<^verbatim>\<open>startExport\<close> would hand to \<^verbatim>\<open>playAllScenes\<close> in its last line: the recorder
  created, stored in \<^verbatim>\<open>recorderRef\<close> and started.
\<close>

definition recorder_started :: "real \<Rightarrow> ExportSession" where
  "recorder_started t0 = (mounted t0)\<lparr>recorderRef := Some recording, isRecordingRef := True\<rparr>"

text \<open>
  \<^verbatim>\<open>startExport\<close>, with the canvas there and the audio context running. The tracks of the
  combined stream are collected before the recorder is created: the \<^verbatim>\<open>TypeError\<close> of
  \<^verbatim>\<open>audioDest.getAudioTracks()\<close> leaves the component as it was mounted, without a recorder,
  and \<^verbatim>\<open>playAllScenes\<close> is not called.
\<close>

definition startExport :: "Story \<Rightarrow> (nat \<Rightarrow> scene_env) \<Rightarrow> real \<Rightarrow> outcome" where
  "startExport st env t0 =
     (case audioDest_getAudioTracks of
        Inl e \<Rightarrow> Threw e (mounted t0)
      | Inr audioTracks \<Rightarrow> playAllScenes st env (recorder_started t0))"

definition session :: "outcome \<Rightarrow> ExportSession" where
  "session out = (case out of Finished s \<Rightarrow> s | Stalled i s \<Rightarrow> s | Threw e s \<Rightarrow> s)"

text \<open>
  For the proofs: the values \<open>render\<close> reports over the frames of one scene, and those the
  loop reports from scene \<open>i\<close> on.
\<close>

fun frame_values :: "nat \<Rightarrow> nat \<Rightarrow> real \<Rightarrow> real list \<Rightarrow> real list" where
  "frame_values i n d [] = []"
| "frame_values i n d (elapsed # later) =
     (let progress = min (elapsed / d) 1;
          value = (real i + progress) / real n * 100
      in if progress < 1 then value # frame_values i n d later else [value])"

fun export_values :: "nat \<Rightarrow> nat \<Rightarrow> Scene list \<Rightarrow> (nat \<Rightarrow> scene_env) \<Rightarrow> real list" where
  "export_values i n [] env = []"
| "export_values i n (scene # rest) env =
     frame_values i n (sceneDuration scene) (frames (env i)) @ export_values (Suc i) n rest env"


section \<open>Example inputs\<close>

text \<open>A narration of 2000 ms: 48000 frames at 24000 Hz.\<close>

definition narration_2000 :: AudioBuffer where
  "narration_2000 =
     \<lparr> numberOfChannels = 1, buf_length = 48000, sampleRate = 24000,
       channelData = [replicate 48000 0] \<rparr>"

text \<open>
  The story of the two-scene scenario: both scenes with the transition the generator
  gives them, the first with the narration above, the second without narration.
\<close>

definition two_scene_story :: Story where
  "two_scene_story =
     \<lparr> title = ''Two scenes'',
       scenes = [\<lparr> scene_id = 1, narrative = ''Once'', imagePrompt = ''a hill'',
                   imageData = Some ''data:image/png;base64,AA=='',
                   audioData = Some narration_2000, audioBase64 = None,
                   transition = Some \<lparr> ttype = Fade, duration = Num 1000 \<rparr> \<rparr>,
                 \<lparr> scene_id = 2, narrative = ''Then'', imagePrompt = ''a lake'',
                   imageData = Some ''data:image/png;base64,AA=='',
                   audioData = None, audioBase64 = None,
                   transition = Some \<lparr> ttype = Fade, duration = Num 1000 \<rparr> \<rparr>],
       backgroundMusic = Some ''ethereal'' \<rparr>"

text \<open>
  The same story with real images, a PNG file of one pixel in each scene; and that story
  as \<open>handleSave\<close> stores it when the quota does not hold the images: no scene has image
  data, so that the export sets the empty string as the source of every image.
\<close>

definition one_pixel_png :: string where
  "one_pixel_png =
     ''data:image/png;base64,iVBORw0KGgoAAAANSUhEUgAAAAEAAAABCAAAAAA6fptVAAAACklEQVR42mNgAAAAAgAB5Sfe/AAAAABJRU5ErkJggg==''"

definition two_image_story :: Story where
  "two_image_story =
     two_scene_story\<lparr>scenes := map (\<lambda>scene. scene\<lparr>imageData := Some one_pixel_png\<rparr>)
                                      (scenes two_scene_story)\<rparr>"


text \<open>
  Surroundings of an export in which an image with a source loads after 5 ms and the frames
  run 1000, 2000, 3000 and 3990 ms into each scene, the timer of the scene firing before
  the next frame.
\<close>

definition punctual_env :: "nat \<Rightarrow> scene_env" where
  "punctual_env i = \<lparr> image = LoadEvent 5, frames = [1000, 2000, 3000, 3990] \<rparr>"





section \<open>Properties of the narration decoder\<close>



lemma unat_byte_lt: "unat (b :: byte) < 256"
  using unsigned_less [of b, where 'a = nat] by simp

lemma index_of_nth: "distinct xs \<Longrightarrow> n < length xs \<Longrightarrow> index_of xs (xs ! n) = Some n"
proof (induction xs arbitrary: n)
  case (Cons x xs)
  then show ?case by (cases n) auto
qed simp

lemma length_b64_alphabet: "length b64_alphabet = 64"
  by (simp add: b64_alphabet_def)

lemma distinct_b64_alphabet: "distinct b64_alphabet"
  by (simp add: b64_alphabet_def)

lemma b64_alphabet_plain: "\<forall>c \<in> set b64_alphabet. c \<noteq> CHR ''='' \<and> \<not> is_ascii_whitespace c"
  by code_simp

lemma sextet_b64_char: "n < 64 \<Longrightarrow> sextet (b64_char n) = Some n"
  by (simp add: sextet_def b64_char_def index_of_nth distinct_b64_alphabet length_b64_alphabet)

lemma b64_char_plain: "n < 64 \<Longrightarrow> b64_char n \<noteq> CHR ''='' \<and> \<not> is_ascii_whitespace (b64_char n)"
  using b64_alphabet_plain by (simp add: b64_char_def length_b64_alphabet)
lemma mod_65536_shift:
  assumes "u < 65536"
  shows "(int u + 32768) mod 65536 = (if u < 32768 then int u + 32768 else int u - 32768)"
proof (cases "u < 32768")
  case True
  then show ?thesis by (simp add: mod_pos_pos_trivial)
next
  case False
  have "int u + 32768 = (int u - 32768) + 65536" by simp
  then have "(int u + 32768) mod 65536 = ((int u - 32768) + 65536) mod 65536" by (rule arg_cong)
  also have "\<dots> = (int u - 32768) mod 65536" by (simp only: mod_add_self2)
  also have "\<dots> = int u - 32768" using False assms by (simp add: mod_pos_pos_trivial)
  finally show ?thesis using False by simp
qed

lemma recompose4: "((n div 262144 * 64 + n div 4096 mod 64) * 64 + n div 64 mod 64) * 64 + n mod 64 = (n::nat)"
proof -
  have a: "n div 4096 = n div 64 div 64" and b: "n div 262144 = n div 64 div 64 div 64"
    by (simp_all add: div_mult2_eq [symmetric])
  show ?thesis unfolding a b by simp
qed

lemma recompose3: "(((n::nat) div 1024 * 64 + n div 16 mod 64) * 64 + n mod 16 * 4) div 4 = n"
proof -
  have a: "n div 1024 = n div 16 div 64"
    by (simp add: div_mult2_eq [symmetric])
  have "(n div 16 div 64 * 64 + n div 16 mod 64) * 64 + n mod 16 * 4 = n div 16 * 64 + n mod 16 * 4"
    by simp
  also have "\<dots> = n * 4"
    using div_mult_mod_eq [of n 16] by linarith
  finally show ?thesis unfolding a by simp
qed

lemma recompose2: "(((x::nat) div 4) * 64 + x mod 4 * 16) div 16 = x"
proof -
  have "x div 4 * 64 + x mod 4 * 16 = x * 16"
    using div_mult_mod_eq [of x 4] by linarith
  then show ?thesis by simp
qed

lemma bytes2:
  assumes "y < 256"
  shows "(x * 256 + y) div 256 = (x::nat)"
    and "(x * 256 + y) mod 256 = y"
  using assms by simp_all

lemma bytes3:
  assumes "y < 256" "z < 256"
  shows "((x * 256 + y) * 256 + z) div 65536 = (x::nat)"
    and "((x * 256 + y) * 256 + z) div 256 mod 256 = y"
    and "((x * 256 + y) * 256 + z) mod 256 = z"
proof -
  have d: "((x * 256 + y) * 256 + z) div 256 = x * 256 + y"
    using assms(2) by (simp only: bytes2)
  show "((x * 256 + y) * 256 + z) div 256 mod 256 = y"
    unfolding d using assms(1) by (simp only: bytes2)
  show "((x * 256 + y) * 256 + z) mod 256 = z"
    using assms(2) by (simp only: bytes2)
  have "((x * 256 + y) * 256 + z) div 65536 = ((x * 256 + y) * 256 + z) div 256 div 256"
    by (simp add: div_mult2_eq [symmetric])
  then show "((x * 256 + y) * 256 + z) div 65536 = x"
    unfolding d using assms(1) by (simp only: bytes2)
qed

lemma replicate_two: "replicate 2 c = [c, c]"
  by (simp add: numeral_2_eq_2)

lemma encodeBase64_shape:
  "encodeBase64 bs = map b64_char (enc_sextets bs) @ replicate (enc_padding bs) CHR ''=''"
  by (induction bs rule: encodeBase64.induct) (simp_all add: Let_def replicate_two)

lemma enc_sextets_lt: "v \<in> set (enc_sextets bs) \<Longrightarrow> v < 64"
proof (induction bs arbitrary: v rule: enc_sextets.induct)
  case (1 x y z rest)
  have "(unat x * 256 + unat y) * 256 + unat z < 64 * 262144"
    using unat_byte_lt [of x] unat_byte_lt [of y] unat_byte_lt [of z] by simp
  then have "((unat x * 256 + unat y) * 256 + unat z) div 262144 < 64"
    by (simp add: less_mult_imp_div_less)
  with 1 show ?case by (auto simp: Let_def)
next
  case (2 x y)
  have "unat x * 256 + unat y < 64 * 1024"
    using unat_byte_lt [of x] unat_byte_lt [of y] by simp
  then have a: "(unat x * 256 + unat y) div 1024 < 64"
    by (simp add: less_mult_imp_div_less)
  have b: "(unat x * 256 + unat y) mod 16 * 4 < 64"
    using mod_less_divisor [of 16 "unat x * 256 + unat y"] by linarith
  from 2 a b show ?case by (auto simp: Let_def)
next
  case (3 x)
  have a: "unat x div 4 < 64"
    using unat_byte_lt [of x] by (simp add: less_mult_imp_div_less)
  have b: "unat x mod 4 * 16 < 64"
    using mod_less_divisor [of 4 "unat x"] by linarith
  from 3 a b show ?case by auto
qed simp

lemma enc_lengths:
  "(length (enc_sextets bs) + enc_padding bs) mod 4 = 0 \<and> enc_padding bs \<le> 2
   \<and> length (enc_sextets bs) mod 4 \<noteq> 1"
  by (induction bs rule: enc_sextets.induct) (simp_all add: Let_def)

lemma b64_groups_quad:
  "b64_groups (n div 262144 # n div 4096 mod 64 # n div 64 mod 64 # n mod 64 # rest) =
     char_of (n div 65536) # char_of (n div 256 mod 256) # char_of (n mod 256) # b64_groups rest"
  by (simp only: b64_groups.simps Let_def recompose4)

lemma b64_groups_triple:
  "b64_groups [n div 1024, n div 16 mod 64, n mod 16 * 4] = [char_of (n div 256), char_of (n mod 256)]"
  by (simp only: b64_groups.simps Let_def recompose3)

lemma b64_groups_pair: "b64_groups [x div 4, x mod 4 * 16] = [char_of x]"
  by (simp only: b64_groups.simps recompose2)

lemma b64_groups_enc_sextets: "b64_groups (enc_sextets bs) = map (\<lambda>b. char_of (unat b)) bs"
proof (induction bs rule: enc_sextets.induct)
  case (1 x y z rest)
  show ?case
    unfolding enc_sextets.simps Let_def b64_groups_quad
    by (simp only: bytes3 [OF unat_byte_lt unat_byte_lt] list.map 1)
next
  case (2 x y)
  show ?case
    unfolding enc_sextets.simps Let_def b64_groups_triple
    by (simp only: bytes2 [OF unat_byte_lt] list.map)
next
  case (3 x)
  show ?case
    unfolding enc_sextets.simps b64_groups_pair by simp
qed simp

lemma sextets_map_b64_char: "\<forall>v \<in> set vs. v < 64 \<Longrightarrow> sextets (map b64_char vs) = Some vs"
  by (induction vs) (simp_all add: sextet_b64_char)

lemma strip_padding_replicate:
  assumes "k \<le> 2" "(length xs + k) mod 4 = 0" "\<forall>c \<in> set xs. c \<noteq> CHR ''=''"
  shows "strip_padding (xs @ replicate k CHR ''='') = xs"
proof -
  have l: "xs \<noteq> [] \<Longrightarrow> last xs \<noteq> CHR ''=''"
    using assms(3) last_in_set by blast
  consider "k = 0" | "k = 1" | "k = 2" using assms(1) by linarith
  then show ?thesis
  proof cases
    case 1
    then show ?thesis using l by (auto simp: strip_padding_def)
  next
    case 2
    then show ?thesis using l assms(2) by (auto simp: strip_padding_def)
  next
    case 3
    then have r: "replicate k CHR ''='' = [CHR ''='', CHR ''='']"
      by (simp add: numeral_2_eq_2)
    have "butlast (xs @ [CHR ''='', CHR ''='']) = xs @ [CHR ''='']"
      by (simp add: butlast_append)
    then show ?thesis using l assms(2) 3 unfolding r by (auto simp: strip_padding_def Let_def)
  qed
qed

lemma filter_whitespace_enc:
  assumes "\<forall>c \<in> set xs. \<not> is_ascii_whitespace c"
  shows "filter (\<lambda>c. \<not> is_ascii_whitespace c) (xs @ replicate k CHR ''='') = xs @ replicate k CHR ''=''"
proof -
  have "\<not> is_ascii_whitespace CHR ''=''" by (simp add: is_ascii_whitespace_def)
  then show ?thesis using assms by (simp add: filter_id_conv)
qed

lemma atob_encodeBase64: "atob (encodeBase64 bs) = Inr (map (\<lambda>b. char_of (unat b)) bs)"
proof -
  let ?xs = "map b64_char (enc_sextets bs)"
  have p: "\<forall>c \<in> set ?xs. c \<noteq> CHR ''='' \<and> \<not> is_ascii_whitespace c"
    using enc_sextets_lt b64_char_plain by auto
  have f: "filter (\<lambda>c. \<not> is_ascii_whitespace c) (encodeBase64 bs) = encodeBase64 bs"
    unfolding encodeBase64_shape using p by (intro filter_whitespace_enc) blast
  have s: "strip_padding (encodeBase64 bs) = ?xs"
    unfolding encodeBase64_shape using p enc_lengths [of bs]
    by (intro strip_padding_replicate) auto
  have "sextets ?xs = Some (enc_sextets bs)"
    using enc_sextets_lt by (intro sextets_map_b64_char) blast
  then show ?thesis
    using enc_lengths [of bs] by (simp add: atob_def f s b64_groups_enc_sextets)
qed

lemma decodeBase64_encodeBase64: "decodeBase64 (encodeBase64 bs) = Inr bs"
proof -
  have "map (\<lambda>c. word_of_nat (of_char c) :: byte) (map (\<lambda>b. char_of (unat b)) bs) = bs"
    by (induction bs) (simp_all add: of_char_of unat_byte_lt)
  then show ?thesis by (simp add: decodeBase64_def atob_encodeBase64)
qed

lemma length_pcm16_bytes: "length (pcm16_bytes ws) = 2 * length ws"
  by (induction ws) simp_all

lemma int16_pairs_pcm16_bytes: "int16_pairs (pcm16_bytes ws) = ws"
proof (induction ws)
  case (Cons w ws)
  have lt: "unat w < 65536" using unsigned_less [of w, where 'a = nat] by simp
  then have d: "unat w div 256 < 256" by (simp add: less_mult_imp_div_less)
  have "unat (word_of_nat (unat w mod 256) :: byte) + 256 * unat (word_of_nat (unat w div 256) :: byte)
        = unat w mod 256 + 256 * (unat w div 256)"
    using d by (simp add: unat_of_nat)
  also have "\<dots> = unat w" by simp
  finally show ?case using Cons by simp
qed simp


lemma sint16_of_nat:
  assumes "u < 65536"
  shows "sint (word_of_nat u :: 16 word) = (if u < 32768 then int u else int u - 65536)"
proof -
  have "sint (word_of_nat u :: 16 word) = (int u + 32768) mod 65536 - 32768"
    using int_word_sint [of "int u", where 'a = 16] by simp
  then show ?thesis using mod_65536_shift [OF assms] by simp
qed

lemma length_int16_pairs: "length (int16_pairs bs) = length bs div 2"
  by (induction bs rule: int16_pairs.induct) simp_all

lemma nth_int16_pairs:
  "i < length bs div 2 \<Longrightarrow>
   int16_pairs bs ! i = word_of_nat (unat (bs ! (2 * i)) + 256 * unat (bs ! (2 * i + 1)))"
proof (induction bs arbitrary: i rule: int16_pairs.induct)
  case (1 lo hi rest)
  then show ?case by (cases i) simp_all
qed simp_all

lemma sint_int16_pairs:
  assumes "i < length bs div 2"
  shows "sint (int16_pairs bs ! i) =
     (let u = int (unat (bs ! (2 * i))) + 256 * int (unat (bs ! (2 * i + 1)))
      in if u < 32768 then u else u - 65536)"
proof -
  define u where "u = unat (bs ! (2 * i)) + 256 * unat (bs ! (2 * i + 1))"
  have lt: "u < 65536"
    unfolding u_def
    using unat_byte_lt [of "bs ! (2 * i)"] unat_byte_lt [of "bs ! (2 * i + 1)"] by linarith
  have iu: "int u = int (unat (bs ! (2 * i))) + 256 * int (unat (bs ! (2 * i + 1)))"
    unfolding u_def by simp
  have "int16_pairs bs ! i = word_of_nat u"
    unfolding u_def by (rule nth_int16_pairs [OF assms])
  then have "sint (int16_pairs bs ! i) = (if u < 32768 then int u else int u - 65536)"
    by (simp only: sint16_of_nat [OF lt])
  also have "\<dots> = (let v = int u in if v < 32768 then v else v - 65536)"
    by (simp add: Let_def)
  finally show ?thesis unfolding iu .
qed

lemma sample_range: "- 1 \<le> real_of_int (sint (w :: 16 word)) / 32768 \<and> real_of_int (sint w) / 32768 < 1"
proof -
  have "- 32768 \<le> sint w" "sint w < 32768"
    using sint_ge [of w] sint_lt [of w] by simp_all
  then have "real_of_int (- 32768) \<le> real_of_int (sint w)" "real_of_int (sint w) < real_of_int 32768"
    by (simp_all only: of_int_le_iff of_int_less_iff)
  then show ?thesis by (simp del: of_int_sint)
qed

lemma upt1: "[0 ..< 1] = [0::nat]"
  by simp

lemma decodeAudioData_mono:
  "decodeAudioData raw rate 1 =
     (if odd (length raw) then Inl RangeError
      else if length raw div 2 = 0 then Inl NotSupportedError
      else Inr \<lparr> numberOfChannels = 1, buf_length = length raw div 2, sampleRate = rate,
                 channelData = [map (\<lambda>i. real_of_int (sint (int16_pairs raw ! i)) / 32768)
                                    [0 ..< length raw div 2]] \<rparr>)"
  by (simp add: decodeAudioData_def Int16Array_def Let_def length_int16_pairs upt1
        del: of_int_sint upt_Suc One_nat_def)

lemma decodeAudioData_default_Inr:
  assumes "decodeAudioData_default raw = Inr buf"
  shows "even (length raw) \<and> raw \<noteq> [] \<and>
         buf = \<lparr> numberOfChannels = 1, buf_length = length raw div 2, sampleRate = 24000,
                 channelData = [map (\<lambda>i. real_of_int (sint (int16_pairs raw ! i)) / 32768)
                                    [0 ..< length raw div 2]] \<rparr>"
proof -
  have ev: "even (length raw)"
    using assms unfolding decodeAudioData_default_def decodeAudioData_mono
    by (cases "odd (length raw)") simp_all
  have ne: "length raw div 2 \<noteq> 0"
    using assms ev unfolding decodeAudioData_default_def decodeAudioData_mono
    by (cases "length raw div 2 = 0") simp_all
  then have "raw \<noteq> []" by auto
  moreover have "buf = \<lparr> numberOfChannels = 1, buf_length = length raw div 2, sampleRate = 24000,
                 channelData = [map (\<lambda>i. real_of_int (sint (int16_pairs raw ! i)) / 32768)
                                    [0 ..< length raw div 2]] \<rparr>"
    using assms ev ne unfolding decodeAudioData_default_def decodeAudioData_mono
    by (simp del: of_int_sint)
  ultimately show ?thesis using ev by blast
qed

text \<open>
  Claim C2. Whenever a raw payload decodes (base64 text to bytes by \<open>decodeBase64\<close>, bytes
  to a buffer by \<open>decodeAudioData\<close> with its defaults, 24000 Hz and one channel), the one
  channel of the buffer holds, for every pair of bytes, the 16-bit little-endian signed
  value of the pair divided by 32768, and every sample lies in \<open>[-1, 1]\<close>. Encoding any
  non-empty list of 16-bit samples and decoding the text gives back each sample divided
  by 32768, exactly.
\<close>

theorem decode_payload_pcm16:
  "(decode_payload base64 = Inr buf \<longrightarrow>
      (\<exists>raw. decodeBase64 base64 = Inr raw \<and> length raw = 2 * buf_length buf
         \<and> numberOfChannels buf = 1 \<and> sampleRate buf = 24000
         \<and> channelData buf =
               [map (\<lambda>i. real_of_int
                            (let u = int (unat (raw ! (2 * i))) + 256 * int (unat (raw ! (2 * i + 1)))
                             in if u < 32768 then u else u - 65536) / 32768)
                    [0 ..< buf_length buf]]
         \<and> (\<forall>x \<in> set (concat (channelData buf)). - 1 \<le> x \<and> x \<le> 1)))
   \<and> (ws \<noteq> [] \<longrightarrow>
        decode_payload (encode_samples ws) =
          Inr \<lparr> numberOfChannels = 1, buf_length = length ws, sampleRate = 24000,
                channelData = [map (\<lambda>w. real_of_int (sint w) / 32768) ws] \<rparr>)"
proof (intro conjI impI)
  assume d: "decode_payload base64 = Inr buf"
  then obtain raw where raw: "decodeBase64 base64 = Inr raw"
    and dec: "decodeAudioData_default raw = Inr buf"
    by (auto simp: decode_payload_def split: sum.splits)
  let ?n = "length raw div 2"
  from decodeAudioData_default_Inr [OF dec]
  have ev: "even (length raw)"
    and buf: "buf = \<lparr> numberOfChannels = 1, buf_length = ?n, sampleRate = 24000,
                 channelData = [map (\<lambda>i. real_of_int (sint (int16_pairs raw ! i)) / 32768)
                                    [0 ..< ?n]] \<rparr>"
    by simp_all
  have len: "length raw = 2 * buf_length buf"
    using ev by (simp add: buf)
  have ch: "map (\<lambda>i. real_of_int (sint (int16_pairs raw ! i)) / 32768) [0 ..< ?n] =
            map (\<lambda>i. real_of_int
                            (let u = int (unat (raw ! (2 * i))) + 256 * int (unat (raw ! (2 * i + 1)))
                             in if u < 32768 then u else u - 65536) / 32768) [0 ..< ?n]"
    by (rule map_cong) (simp_all add: sint_int16_pairs)
  have rng: "\<forall>x \<in> set (concat (channelData buf)). - 1 \<le> x \<and> x \<le> 1"
    using sample_range by (auto simp: buf less_imp_le)
  show "\<exists>raw. decodeBase64 base64 = Inr raw \<and> length raw = 2 * buf_length buf
         \<and> numberOfChannels buf = 1 \<and> sampleRate buf = 24000
         \<and> channelData buf =
               [map (\<lambda>i. real_of_int
                            (let u = int (unat (raw ! (2 * i))) + 256 * int (unat (raw ! (2 * i + 1)))
                             in if u < 32768 then u else u - 65536) / 32768)
                    [0 ..< buf_length buf]]
         \<and> (\<forall>x \<in> set (concat (channelData buf)). - 1 \<le> x \<and> x \<le> 1)"
    using raw len rng ch by (intro exI [of _ raw]) (simp add: buf)
next
  assume ne: "ws \<noteq> []"
  have "map (\<lambda>i. real_of_int (sint (ws ! i)) / 32768) [0 ..< length ws] =
        map (\<lambda>w. real_of_int (sint w) / 32768) (map ((!) ws) [0 ..< length ws])"
    by (simp only: map_map comp_def)
  then have m: "map (\<lambda>i. real_of_int (sint (ws ! i)) / 32768) [0 ..< length ws] =
        map (\<lambda>w. real_of_int (sint w) / 32768) ws"
    by (simp only: map_nth)
  have "decodeAudioData_default (pcm16_bytes ws) =
          Inr \<lparr> numberOfChannels = 1, buf_length = length ws, sampleRate = 24000,
                channelData = [map (\<lambda>w. real_of_int (sint w) / 32768) ws] \<rparr>"
    unfolding decodeAudioData_default_def decodeAudioData_mono
    using ne by (simp add: length_pcm16_bytes int16_pairs_pcm16_bytes m del: of_int_sint)
  then show "decode_payload (encode_samples ws) =
          Inr \<lparr> numberOfChannels = 1, buf_length = length ws, sampleRate = 24000,
                channelData = [map (\<lambda>w. real_of_int (sint w) / 32768) ws] \<rparr>"
    by (simp only: decode_payload_def encode_samples_def decodeBase64_encodeBase64 sum.case)
qed

theorem decode_payload_pcm16_witness:
  "decode_payload ''AQD//w=='' =
     Inr \<lparr> numberOfChannels = 1, buf_length = 2, sampleRate = 24000,
           channelData = [[1 / 32768, - 1 / 32768]] \<rparr>
   \<and> [1, - 1 :: 16 word] \<noteq> []
   \<and> (\<exists>raw. decodeBase64 ''AQD//w=='' = Inr raw \<and> length raw = 4)
   \<and> decode_payload (encode_samples [1, - 1]) =
     Inr \<lparr> numberOfChannels = 1, buf_length = 2, sampleRate = 24000,
           channelData = [[1 / 32768, - 1 / 32768]] \<rparr>"
proof -
  let ?B = "\<lparr> numberOfChannels = 1, buf_length = 2, sampleRate = 24000,
           channelData = [[1 / 32768, - 1 / 32768 :: real]] \<rparr>"
  have h0: "decodeBase64 ''AQD//w=='' = Inr [1, 0, 255, 255]"
    by (simp add: decodeBase64_def atob_def is_ascii_whitespace_def strip_padding_def
          sextet_def b64_alphabet_def)
  have "decodeAudioData_default [1, 0, 255, 255] = Inr ?B"
    unfolding decodeAudioData_default_def decodeAudioData_mono by (simp add: upt_rec)
  then have h1: "decode_payload ''AQD//w=='' = Inr ?B"
    by (simp add: decode_payload_def h0)
  have h2: "[1, - 1 :: 16 word] \<noteq> []"
    by simp
  have s: "real_of_int (sint (1 :: 16 word)) = 1" "real_of_int (sint (- 1 :: 16 word)) = - 1"
    by (simp_all del: of_int_sint)
  from decode_payload_pcm16 [of "''AQD//w==''" ?B "[1, - 1]"] h1 h2
  have "(\<exists>raw. decodeBase64 ''AQD//w=='' = Inr raw \<and> length raw = 2 * buf_length ?B)
        \<and> decode_payload (encode_samples [1, - 1]) =
            Inr \<lparr> numberOfChannels = 1, buf_length = length [1, - 1 :: 16 word], sampleRate = 24000,
                  channelData = [map (\<lambda>w. real_of_int (sint w) / 32768) [1, - 1 :: 16 word]] \<rparr>"
    by blast
  then show ?thesis using h1 h2 s by (simp del: of_int_sint)
qed

section \<open>Properties of draft restoration\<close>








section \<open>Properties of the editor\<close>

lemma prepare_scenes:
  "scenes (prepareStoryForSave st si sa) =
     map (\<lambda>scene. scene\<lparr> audioData := None,
                           imageData := (if si then None else imageData scene),
                           audioBase64 := (if sa then None else audioBase64 scene) \<rparr>) (scenes st)"
  by (simp add: prepareStoryForSave_def)

text \<open>
  Claim C8. When the first attempt to store the draft throws a quota error, the image data
  are stripped and the store is retried; if that throws too, the raw audio payloads are
  stripped as well and the store is retried once more; the status is \<open>Error\<close> exactly when
  this last attempt throws too, and otherwise \<open>Partial\<close> with the first tier that fitted
  written under the key. No tier ever holds a decoded audio buffer; the second tier keeps
  the raw payloads and the texts, the third the texts.
\<close>

theorem handleSave_degrades:
  assumes "setItem (prepareStoryForSave st False False) = Some e" and "is_quota_error e"
  shows "(setItem (prepareStoryForSave st True False) = None
            \<longrightarrow> handleSave setItem st = (Partial, Some (prepareStoryForSave st True False)))
       \<and> (setItem (prepareStoryForSave st True False) \<noteq> None
            \<and> setItem (prepareStoryForSave st True True) = None
            \<longrightarrow> handleSave setItem st = (Partial, Some (prepareStoryForSave st True True)))
       \<and> (fst (handleSave setItem st) = Error
            \<longleftrightarrow> setItem (prepareStoryForSave st True False) \<noteq> None
                \<and> setItem (prepareStoryForSave st True True) \<noteq> None)
       \<and> (fst (handleSave setItem st) = Error \<longrightarrow> snd (handleSave setItem st) = None)
       \<and> (\<forall>si sa. \<forall>sc \<in> set (scenes (prepareStoryForSave st si sa)). audioData sc = None)
       \<and> (\<forall>sc \<in> set (scenes (prepareStoryForSave st True False)). imageData sc = None)
       \<and> (\<forall>sc \<in> set (scenes (prepareStoryForSave st True True)).
              imageData sc = None \<and> audioBase64 sc = None)
       \<and> map audioBase64 (scenes (prepareStoryForSave st True False)) = map audioBase64 (scenes st)
       \<and> (\<forall>si sa. map narrative (scenes (prepareStoryForSave st si sa)) = map narrative (scenes st))"
proof -
  have 1: "setItem (prepareStoryForSave st True False) = None
            \<longrightarrow> handleSave setItem st = (Partial, Some (prepareStoryForSave st True False))"
    using assms by (simp add: handleSave_def Let_def)
  have 2: "setItem (prepareStoryForSave st True False) \<noteq> None
            \<and> setItem (prepareStoryForSave st True True) = None
            \<longrightarrow> handleSave setItem st = (Partial, Some (prepareStoryForSave st True True))"
    using assms by (auto simp: handleSave_def Let_def)
  have 3: "fst (handleSave setItem st) = Error
            \<longleftrightarrow> setItem (prepareStoryForSave st True False) \<noteq> None
                \<and> setItem (prepareStoryForSave st True True) \<noteq> None"
    using assms by (auto simp: handleSave_def Let_def split: option.splits)
  have 4: "fst (handleSave setItem st) = Error \<longrightarrow> snd (handleSave setItem st) = None"
    using assms by (auto simp: handleSave_def Let_def split: option.splits)
  have 5: "\<forall>si sa. \<forall>sc \<in> set (scenes (prepareStoryForSave st si sa)). audioData sc = None"
    by (auto simp: prepare_scenes)
  have 6: "\<forall>sc \<in> set (scenes (prepareStoryForSave st True False)). imageData sc = None"
    by (auto simp: prepare_scenes)
  have 7: "\<forall>sc \<in> set (scenes (prepareStoryForSave st True True)).
              imageData sc = None \<and> audioBase64 sc = None"
    by (auto simp: prepare_scenes)
  have 8: "map audioBase64 (scenes (prepareStoryForSave st True False)) = map audioBase64 (scenes st)"
    by (simp add: prepare_scenes)
  have 9: "\<forall>si sa. map narrative (scenes (prepareStoryForSave st si sa)) = map narrative (scenes st)"
    by (simp add: prepare_scenes)
  from 1 2 3 4 5 6 7 8 9 show ?thesis by blast
qed

theorem handleSave_degrades_witness:
  "(\<lambda>s. if list_ex (\<lambda>sc. imageData sc \<noteq> None) (scenes s) then Some QuotaExceededError else None)
     (prepareStoryForSave \<lparr> title = ''T'',
        scenes = [\<lparr> scene_id = 1, narrative = ''a'', imagePrompt = ''p'', imageData = Some ''img'',
                    audioData = None, audioBase64 = Some ''AQD//w=='', transition = None \<rparr>],
        backgroundMusic = None \<rparr> False False) = Some QuotaExceededError
   \<and> is_quota_error QuotaExceededError
   \<and> handleSave
        (\<lambda>s. if list_ex (\<lambda>sc. imageData sc \<noteq> None) (scenes s) then Some QuotaExceededError else None)
        \<lparr> title = ''T'',
        scenes = [\<lparr> scene_id = 1, narrative = ''a'', imagePrompt = ''p'', imageData = Some ''img'',
                    audioData = None, audioBase64 = Some ''AQD//w=='', transition = None \<rparr>],
        backgroundMusic = None \<rparr>
     = (Partial, Some \<lparr> title = ''T'',
        scenes = [\<lparr> scene_id = 1, narrative = ''a'', imagePrompt = ''p'', imageData = None,
                    audioData = None, audioBase64 = Some ''AQD//w=='', transition = None \<rparr>],
        backgroundMusic = None \<rparr>)"
proof -
  let ?set = "\<lambda>s. if list_ex (\<lambda>sc. imageData sc \<noteq> None) (scenes s) then Some QuotaExceededError else None"
  let ?st = "\<lparr> title = ''T'',
        scenes = [\<lparr> scene_id = 1, narrative = ''a'', imagePrompt = ''p'', imageData = Some ''img'',
                    audioData = None, audioBase64 = Some ''AQD//w=='', transition = None \<rparr>],
        backgroundMusic = None \<rparr>"
  have h1: "?set (prepareStoryForSave ?st False False) = Some QuotaExceededError"
    by (simp add: prepareStoryForSave_def)
  have h2: "is_quota_error QuotaExceededError"
    by (simp add: is_quota_error_def)
  have h3: "?set (prepareStoryForSave ?st True False) = None"
    by (simp add: prepareStoryForSave_def)
  from handleSave_degrades [of ?set ?st QuotaExceededError, OF h1 h2] h3
  have "handleSave ?set ?st = (Partial, Some (prepareStoryForSave ?st True False))"
    by blast
  then show ?thesis using h1 h2 by (simp add: prepareStoryForSave_def)
qed

text \<open>
  Claim C4, the code at the failing input. The duration input declares the range
  100 to 5000, and the handler stores whatever \<open>parseInt\<close> returns: 7000 and 0, typed into
  the field of a scene, are stored as they are.
\<close>

theorem onChange_duration_stores_out_of_range:
  "map_option (\<lambda>s. map (map_option duration \<circ> transition) (scenes s))
     (onChange_duration
        \<lparr> title = ''T'',
          scenes = [\<lparr> scene_id = 1, narrative = ''a'', imagePrompt = ''p'', imageData = None,
                      audioData = None, audioBase64 = None,
                      transition = Some \<lparr> ttype = Fade, duration = Num 1000 \<rparr> \<rparr>],
          backgroundMusic = None \<rparr> 0 ''7000'')
     = Some [Some (Num 7000)]
   \<and> \<not> (duration_input_min \<le> 7000 \<and> 7000 \<le> duration_input_max)
   \<and> map_option (\<lambda>s. map (map_option duration \<circ> transition) (scenes s))
     (onChange_duration
        \<lparr> title = ''T'',
          scenes = [\<lparr> scene_id = 1, narrative = ''a'', imagePrompt = ''p'', imageData = None,
                      audioData = None, audioBase64 = None,
                      transition = Some \<lparr> ttype = Fade, duration = Num 1000 \<rparr> \<rparr>],
          backgroundMusic = None \<rparr> 0 ''0'')
     = Some [Some (Num 0)]
   \<and> \<not> (duration_input_min \<le> 0 \<and> 0 \<le> duration_input_max)"
  by (simp add: onChange_duration_def updateSceneTransition_def parseInt_def is_digit_def
        is_ascii_whitespace_def digits_value_def duration_input_min_def duration_input_max_def)

lemma updateSceneTransition_stores:
  assumes "index < length (scenes st)"
  shows "\<exists>st'. updateSceneTransition st index ty d = Some st'
           \<and> transition (scenes st' ! index) = Some \<lparr> ttype = ty, duration = d \<rparr>"
  using assms by (simp add: updateSceneTransition_def)

section \<open>The master gain\<close>

lemma value_from_prefix:
  assumes "\<forall>e \<in> set pre. ev_time e \<le> t" and "t1 \<le> t"
  shows "value_from t0 v0 (pre @ SetValue v t1 # post) t = value_from t1 v post t"
  using assms
proof (induction pre arbitrary: t0 v0)
  case Nil
  then show ?case by simp
next
  case (Cons e pre)
  then show ?case by (cases e) simp_all
qed

lemma value_from_future:
  assumes "post = [] \<or> t < ev_time (hd post)"
  shows "value_from t v post t = v"
proof (cases post)
  case Nil
  then show ?thesis by simp
next
  case (Cons e es)
  with assms have "t < ev_time e" by simp
  then show ?thesis using Cons by (cases e) simp_all
qed

lemma value_from_insert_SetValue:
  "value_from t0 v0 (insert_event (SetValue v t) evs) t = v"
proof -
  let ?P = "\<lambda>x. ev_time x \<le> t"
  have pre: "\<forall>e \<in> set (takeWhile ?P evs). ev_time e \<le> t"
    by (auto dest: set_takeWhileD)
  have post: "dropWhile ?P evs = [] \<or> t < ev_time (hd (dropWhile ?P evs))"
  proof (cases "dropWhile ?P evs = []")
    case False
    from hd_dropWhile [OF False] show ?thesis by (simp add: not_le)
  qed simp
  have "value_from t0 v0 (insert_event (SetValue v t) evs) t
          = value_from t v (dropWhile ?P evs) t"
    using value_from_prefix [OF pre, of t t0 v0 v "dropWhile ?P evs"]
    by (simp add: insert_event_def)
  then show ?thesis using value_from_future [OF post] by simp
qed

lemma master_gain_setVolume: "master_gain_value (setVolume v a) = v"
  by (simp add: master_gain_value_def master_gain_at_def setVolume_def value_from_insert_SetValue)

lemma insert_event_last:
  assumes "\<forall>x \<in> set evs. ev_time x \<le> ev_time e"
  shows "insert_event e evs = evs @ [e]"
proof -
  have "takeWhile (\<lambda>x. ev_time x \<le> ev_time e) evs = evs"
    using assms by (simp add: takeWhile_eq_all_conv)
  moreover have "dropWhile (\<lambda>x. ev_time x \<le> ev_time e) evs = []"
    using assms by simp
  ultimately show ?thesis by (simp add: insert_event_def)
qed

lemma master_events_stop:
  "master_events (stop a) =
     cancelScheduledValues (now a) (master_events a)
       @ [SetValue (master_gain_value a) (now a), LinearRamp 0 (now a + 1000)]"
proof -
  let ?c = "cancelScheduledValues (now a) (master_events a)"
  have c: "\<forall>x \<in> set ?c. ev_time x \<le> now a"
    by (auto simp: cancelScheduledValues_def)
  have 1: "insert_event (SetValue (master_gain_value a) (now a)) ?c
             = ?c @ [SetValue (master_gain_value a) (now a)]"
    using c by (intro insert_event_last) simp
  have 2: "insert_event (LinearRamp 0 (now a + 1000)) (?c @ [SetValue (master_gain_value a) (now a)])
             = (?c @ [SetValue (master_gain_value a) (now a)]) @ [LinearRamp 0 (now a + 1000)]"
    using c by (intro insert_event_last) (auto intro: order_trans)
  show ?thesis by (simp add: stop_def Let_def 1 2)
qed

text \<open>
  After \<open>stop\<close> the master gain falls linearly from the value it had to 0 over 1000 ms and
  stays at 0.
\<close>

lemma stop_fades_master_gain:
  assumes "0 \<le> d"
  shows "master_gain_at (stop a) (now a + d) =
           (if d < 1000 then master_gain_value a * (1 - d / 1000) else 0)"
proof -
  let ?c = "cancelScheduledValues (now a) (master_events a)"
  have c: "\<forall>e \<in> set ?c. ev_time e \<le> now a + d"
    using assms by (auto simp: cancelScheduledValues_def)
  have i: "master_intrinsic (stop a) = master_intrinsic a"
    by (simp add: stop_def Let_def)
  have "master_gain_at (stop a) (now a + d)
          = value_from 0 (master_intrinsic a)
              (?c @ SetValue (master_gain_value a) (now a) # [LinearRamp 0 (now a + 1000)]) (now a + d)"
    by (simp only: master_gain_at_def i master_events_stop)
  also have "\<dots> = value_from (now a) (master_gain_value a) [LinearRamp 0 (now a + 1000)] (now a + d)"
    using assms by (intro value_from_prefix [OF c]) simp
  also have "\<dots> = (if d < 1000 then master_gain_value a * (1 - d / 1000) else 0)"
    using assms by (simp add: algebra_simps)
  finally show ?thesis .
qed

text \<open>
  What \<open>stop\<close> does at once: it touches no node and sets one timer, due 1100 ms later. The
  callback of the timer empties \<^verbatim>\<open>this.nodes\<close>, so a second run of it finds nothing to tear
  down; on an empty list it leaves every node as it is.
\<close>

lemma stop_sets_timer:
  "timers (stop a) = timers a @ [now a + 1100] \<and> graph (stop a) = graph a
   \<and> nodes (stop a) = nodes a \<and> now (stop a) = now a"
  by (simp add: stop_def Let_def)

lemma teardown_clears: "nodes (teardown a) = []"
  by (simp add: teardown_def)

lemma teardown_twice: "teardown (teardown a) = teardown a"
  by (simp add: teardown_def)

lemma teardown_nothing_playing: "nodes a = [] \<Longrightarrow> graph (teardown a) = graph a"
  by (simp add: teardown_def)

section \<open>The ambient synthesizer at its failing inputs\<close>

text \<open>
  Claim C1, the code at the failing input. \<open>play\<close> calls \<open>stop\<close>, whose timer reads
  \<^verbatim>\<open>this.nodes\<close> when it fires, 1100 ms later, and \<open>play\<close> builds the new graph at once. After
  \<open>play(''ethereal'')\<close> and, immediately, \<open>play(''suspense'')\<close> the seven voices of both moods
  feed the master gain together; when the timers have fired no voice is left, the nodes of
  the mood just started included. The same holds for every ordered pair of the three moods.
\<close>

theorem play_twice_leaves_no_voice:
  "voices (play ''suspense'' (play ''ethereal'' (new_AmbientGenerator 0))) = [1, 3, 5, 7, 10, 13, 15]
   \<and> voices (play ''ethereal'' (new_AmbientGenerator 0)) = [1, 3, 5, 7]
   \<and> timers (elapse 1100 (play ''suspense'' (play ''ethereal'' (new_AmbientGenerator 0)))) = []
   \<and> voices (elapse 1100 (play ''suspense'' (play ''ethereal'' (new_AmbientGenerator 0)))) = []
   \<and> nodes (elapse 1100 (play ''suspense'' (play ''ethereal'' (new_AmbientGenerator 0)))) = []
   \<and> voices (elapse 1100 (play ''scifi'' (play ''ethereal'' (new_AmbientGenerator 0)))) = []
   \<and> voices (elapse 1100 (play ''ethereal'' (play ''suspense'' (new_AmbientGenerator 0)))) = []
   \<and> voices (elapse 1100 (play ''scifi'' (play ''suspense'' (new_AmbientGenerator 0)))) = []
   \<and> voices (elapse 1100 (play ''ethereal'' (play ''scifi'' (new_AmbientGenerator 0)))) = []
   \<and> voices (elapse 1100 (play ''suspense'' (play ''scifi'' (new_AmbientGenerator 0)))) = []"
  by code_simp

text \<open>
  Claim C6, the code at the failing input. \<open>play(''ethereal'')\<close> at time 0, \<open>stop()\<close> at
  500 ms: the fade of this \<open>stop\<close> ends at 1500 ms, but the timer that \<open>play\<close> set through its
  own call of \<open>stop\<close> fires at 1100 ms and tears every node down while the master gain is
  still 0.008.
\<close>

theorem stop_teardown_before_fade_ends:
  "voices (elapse 599 (stop (elapse 500 (play ''ethereal'' (new_AmbientGenerator 0))))) = [1, 3, 5, 7]
   \<and> now (elapse 600 (stop (elapse 500 (play ''ethereal'' (new_AmbientGenerator 0))))) = 1100
   \<and> voices (elapse 600 (stop (elapse 500 (play ''ethereal'' (new_AmbientGenerator 0))))) = []
   \<and> nodes (elapse 600 (stop (elapse 500 (play ''ethereal'' (new_AmbientGenerator 0))))) = []
   \<and> master_gain_value (elapse 600 (stop (elapse 500 (play ''ethereal'' (new_AmbientGenerator 0))))) = 0.008
   \<and> master_gain_value (elapse 1000 (stop (elapse 500 (play ''ethereal'' (new_AmbientGenerator 0))))) = 0"
  by code_simp

section \<open>Properties of the scene playback scheduler\<close>

lemma timer_delay_3000: "timer_delay 3000 = 3000"
  by (simp add: timer_delay_def to_int32_def)

lemma timer_delay_500: "timer_delay 500 = 500"
  by (simp add: timer_delay_def to_int32_def)

lemma now_setVolume: "now (setVolume v a) = now a"
  by (simp add: setVolume_def)

lemma now_elapse: "now (elapse d a) = now a + d"
  by (simp add: elapse_def Let_def)

lemma timer_delay_nonneg: "0 \<le> timer_delay x"
  by (simp add: timer_delay_def Let_def)

text \<open>
  Whatever the stored duration of the next scene, \<open>advanceNext\<close> on a scene that is not the
  last sets one timer, with a delay that is not negative, whose callback plays the next
  scene: half a second for a duration of 0 or \<open>NaN\<close>, no delay for a negative duration.
\<close>

lemma advanceNext_schedules:
  assumes "i + 1 < length (scenes (props_story p))"
  shows "pending (advanceNext i p) =
           pending p @ [(next_handle p,
                         clock p + timer_delay (transitionDuration (scenes (props_story p) ! (i + 1)) / 2),
                         PlayScene (i + 1))]
         \<and> layoutStage (advanceNext i p) = Exit
         \<and> isFinished (advanceNext i p) = isFinished p"
  using assms by (simp add: advanceNext_def setTimeout_ref_def schedule_def Let_def)

lemma transitionDuration_zero_or_NaN:
  "transitionDuration (sc\<lparr>transition := Some \<lparr>ttype = ty, duration = Num 0\<rparr>\<rparr>) = 1000"
  "transitionDuration (sc\<lparr>transition := Some \<lparr>ttype = ty, duration = NaN\<rparr>\<rparr>) = 1000"
  by (simp_all add: transitionDuration_def)

lemma timer_delay_negative_example: "timer_delay (- 200 / 2) = 0"
  by (simp add: timer_delay_def to_int32_def)

text \<open>
  Claim C3. A story of two scenes, the first with a narration of 2000 ms, the second without
  narration and with the transition unset or lasting 1000 ms, mounted at time \<open>t0\<close> with a
  frame shorter than 250 ms. Left alone, the player goes through exactly these states:
  scene 1 enters at \<open>t0\<close> and is active two frames later; at \<open>t0 + 2000\<close> the narration ends and
  the stage is exit; at \<open>t0 + 2500\<close>, half the transition later, scene 2 enters; at
  \<open>t0 + 5500\<close>, 3000 ms later, the player is finished and not playing. Nothing is pending
  then, and the synthesizer is the one of the mounted player, 5500 ms later, on which
  \<open>stop\<close> has been called.
\<close>

theorem two_scene_timeline:
  assumes "scenes st = [s1, s2]"
    and "audioData s1 = Some buf" and "duration_ms buf = 2000"
    and "transition s2 = None \<or> (\<exists>ty. transition s2 = Some \<lparr>ttype = ty, duration = Num 1000\<rparr>)"
    and "audioData s2 = None"
    and "0 < frame" and "frame < 250"
  shows "view (mount st t0 frame) = (t0, 0, Enter, True, False)
     \<and> map view (run 20 (mount st t0 frame)) =
         [(t0 + frame, 0, Enter, True, False), (t0 + 2 * frame, 0, Active, True, False),
          (t0 + 2000, 0, Exit, True, False), (t0 + 2500, 1, Enter, True, False),
          (t0 + 2500 + frame, 1, Enter, True, False), (t0 + 2500 + 2 * frame, 1, Active, True, False),
          (t0 + 5500, 1, Active, False, True)]
     \<and> pending (last (run 20 (mount st t0 frame))) = []
     \<and> musicPlayerRef (last (run 20 (mount st t0 frame))) =
         map_option (\<lambda>a. stop (elapse 5500 a)) (musicPlayerRef (mount st t0 frame))"
proof -
  have td: "transitionDuration s2 = 1000"
    using assms(4) by (auto simp: transitionDuration_def)
  note defs = mount_def mute_effect_def with_music_def playScene_def stopAudio_def
    requestAnimationFrame_def schedule_def setTimeout_ref_def clearTimeout_def source_stop_def
    advanceNext_def run_callback_def fire_def view_def Let_def eval_nat_numeral
    timer_delay_3000 timer_delay_500
  have 1: "view (mount st t0 frame) = (t0, 0, Enter, True, False)"
    using assms td by (simp add: defs)
  have 2: "map view (run 20 (mount st t0 frame)) =
         [(t0 + frame, 0, Enter, True, False), (t0 + 2 * frame, 0, Active, True, False),
          (t0 + 2000, 0, Exit, True, False), (t0 + 2500, 1, Enter, True, False),
          (t0 + 2500 + frame, 1, Enter, True, False), (t0 + 2500 + 2 * frame, 1, Active, True, False),
          (t0 + 5500, 1, Active, False, True)]"
    using assms td by (simp add: defs)
  have 3: "pending (last (run 20 (mount st t0 frame))) = []"
    using assms td by (simp add: defs)
  have 4: "musicPlayerRef (last (run 20 (mount st t0 frame))) =
         map_option (\<lambda>a. stop (elapse 5500 a)) (musicPlayerRef (mount st t0 frame))"
    using assms td by (simp add: defs now_setVolume now_elapse)
  from 1 2 3 4 show ?thesis by blast
qed

theorem two_scene_timeline_witness:
  "scenes two_scene_story = [scenes two_scene_story ! 0, scenes two_scene_story ! 1]
   \<and> audioData (scenes two_scene_story ! 0) = Some narration_2000
   \<and> duration_ms narration_2000 = 2000
   \<and> (transition (scenes two_scene_story ! 1) = None
        \<or> (\<exists>ty. transition (scenes two_scene_story ! 1) = Some \<lparr>ttype = ty, duration = Num 1000\<rparr>))
   \<and> audioData (scenes two_scene_story ! 1) = None
   \<and> (0 :: real) < 16 \<and> (16 :: real) < 250
   \<and> map view (run 20 (mount two_scene_story 0 16)) =
         [(16, 0, Enter, True, False), (32, 0, Active, True, False),
          (2000, 0, Exit, True, False), (2500, 1, Enter, True, False),
          (2516, 1, Enter, True, False), (2532, 1, Active, True, False),
          (5500, 1, Active, False, True)]"
proof -
  have h1: "scenes two_scene_story = [scenes two_scene_story ! 0, scenes two_scene_story ! 1]"
    by (simp add: two_scene_story_def)
  have h2: "audioData (scenes two_scene_story ! 0) = Some narration_2000"
    by (simp add: two_scene_story_def)
  have h3: "duration_ms narration_2000 = 2000"
    by (simp add: duration_ms_def narration_2000_def)
  have h4: "transition (scenes two_scene_story ! 1) = None
        \<or> (\<exists>ty. transition (scenes two_scene_story ! 1) = Some \<lparr>ttype = ty, duration = Num 1000\<rparr>)"
    by (simp add: two_scene_story_def)
  have h5: "audioData (scenes two_scene_story ! 1) = None"
    by (simp add: two_scene_story_def)
  have h6: "(0 :: real) < 16" and h7: "(16 :: real) < 250"
    by simp_all
  from two_scene_timeline [OF h1 h2 h3 h4 h5 h6 h7, of 0]
  have "map view (run 20 (mount two_scene_story 0 16)) =
         [(16, 0, Enter, True, False), (32, 0, Active, True, False),
          (2000, 0, Exit, True, False), (2500, 1, Enter, True, False),
          (2516, 1, Enter, True, False), (2532, 1, Active, True, False),
          (5500, 1, Active, False, True)]"
    by simp
  with h1 h2 h3 h4 h5 h6 h7 show ?thesis by blast
qed

lemma nth_snoc: "length xs = n \<Longrightarrow> (xs @ [y]) ! n = y"
  by auto

lemma update_snoc: "length xs = n \<Longrightarrow> (xs @ [y])[n := z] = xs @ [z]"
  by auto

lemma sources_with_music: "sources (with_music f p) = sources p"
  by (simp add: with_music_def)

lemma playScene_ignores_mute:
  "sources (playScene i (p\<lparr>isMuted := b, musicPlayerRef := m\<rparr>)) = sources (playScene i p)"
  by (simp add: playScene_def stopAudio_def source_stop_def clearTimeout_def
        requestAnimationFrame_def schedule_def setTimeout_ref_def Let_def nth_snoc update_snoc
        split: option.splits)

lemma playScene_source:
  assumes "i < length (scenes (props_story p))"
    and "audioData (scenes (props_story p) ! i) = Some buf"
  shows "sources (playScene i p) \<noteq> []
       \<and> last (sources (playScene i p)) =
           \<lparr> src_buffer = buf, to_destination = True, onended = Some i, started = True,
             stopped = False \<rparr>"
  using assms
  by (simp add: playScene_def stopAudio_def source_stop_def clearTimeout_def
        requestAnimationFrame_def schedule_def setTimeout_ref_def Let_def nth_snoc update_snoc
        split: option.splits)

text \<open>
  Claim C10. Toggling the mute flag of a mounted player flips the flag and sets the master
  gain of the synthesizer, at that moment, to 0 when the player becomes muted and to 0.08
  when it becomes audible again. The narration sources, the pending callbacks, the scene
  index, the stage, the finished and playing flags and the clock are unchanged; a scene
  played afterwards gets the same narration source as without the toggle, and that source
  is connected to the destination of the audio context, not to the master gain.
\<close>

theorem toggleMute_only_music:
  assumes "musicPlayerRef p = Some a"
  shows "isMuted (toggleMute p) = (\<not> isMuted p)
    \<and> (\<exists>a'. musicPlayerRef (toggleMute p) = Some a' \<and> now a' = clock p
          \<and> master_gain_value a' = (if isMuted p then 0.08 else 0))
    \<and> sources (toggleMute p) = sources p
    \<and> pending (toggleMute p) = pending p
    \<and> currentSceneIndex (toggleMute p) = currentSceneIndex p
    \<and> layoutStage (toggleMute p) = layoutStage p
    \<and> isFinished (toggleMute p) = isFinished p
    \<and> isPlaying (toggleMute p) = isPlaying p
    \<and> audioSourceRef (toggleMute p) = audioSourceRef p
    \<and> clock (toggleMute p) = clock p
    \<and> (\<forall>i. sources (playScene i (toggleMute p)) = sources (playScene i p))
    \<and> (\<forall>i buf. i < length (scenes (props_story p)) \<and> audioData (scenes (props_story p) ! i) = Some buf
          \<longrightarrow> sources (playScene i p) \<noteq> []
              \<and> last (sources (playScene i p)) =
                  \<lparr> src_buffer = buf, to_destination = True, onended = Some i, started = True,
                    stopped = False \<rparr>)"
proof -
  let ?v = "if isMuted p then 0.08 else (0 :: real)"
  let ?a = "setVolume ?v (elapse (clock p - now a) a)"
  have m: "musicPlayerRef (toggleMute p) = Some ?a"
    using assms by (simp add: toggleMute_def mute_effect_def with_music_def)
  have "now ?a = clock p"
    by (simp add: now_setVolume now_elapse)
  moreover have "master_gain_value ?a = ?v"
    by (rule master_gain_setVolume)
  ultimately have 1: "\<exists>a'. musicPlayerRef (toggleMute p) = Some a' \<and> now a' = clock p
          \<and> master_gain_value a' = (if isMuted p then 0.08 else 0)"
    using m by blast
  have 2: "isMuted (toggleMute p) = (\<not> isMuted p)" "sources (toggleMute p) = sources p"
    "pending (toggleMute p) = pending p" "currentSceneIndex (toggleMute p) = currentSceneIndex p"
    "layoutStage (toggleMute p) = layoutStage p" "isFinished (toggleMute p) = isFinished p"
    "isPlaying (toggleMute p) = isPlaying p" "audioSourceRef (toggleMute p) = audioSourceRef p"
    "clock (toggleMute p) = clock p"
    by (simp_all add: toggleMute_def mute_effect_def with_music_def)
  have t: "toggleMute p = p\<lparr>isMuted := \<not> isMuted p, musicPlayerRef := Some ?a\<rparr>"
    using assms by (simp add: toggleMute_def mute_effect_def with_music_def)
  have 3: "\<forall>i. sources (playScene i (toggleMute p)) = sources (playScene i p)"
    unfolding t by (simp add: playScene_ignores_mute)
  have 4: "\<forall>i buf. i < length (scenes (props_story p)) \<and> audioData (scenes (props_story p) ! i) = Some buf
          \<longrightarrow> sources (playScene i p) \<noteq> []
              \<and> last (sources (playScene i p)) =
                  \<lparr> src_buffer = buf, to_destination = True, onended = Some i, started = True,
                    stopped = False \<rparr>"
    using playScene_source by blast
  from 1 2 3 4 show ?thesis by blast
qed

theorem toggleMute_only_music_witness:
  "(\<exists>a. musicPlayerRef (mount two_scene_story 0 16) = Some a)
   \<and> isMuted (toggleMute (mount two_scene_story 0 16))
   \<and> currentSceneIndex (toggleMute (mount two_scene_story 0 16))
       = currentSceneIndex (mount two_scene_story 0 16)
   \<and> sources (toggleMute (mount two_scene_story 0 16)) = sources (mount two_scene_story 0 16)"
proof -
  note defs = mount_def mute_effect_def with_music_def playScene_def stopAudio_def
    requestAnimationFrame_def schedule_def setTimeout_ref_def Let_def
  obtain a where h: "musicPlayerRef (mount two_scene_story 0 16) = Some a"
    by (simp add: defs two_scene_story_def)
  have "\<not> isMuted (mount two_scene_story 0 16)"
    by (simp add: defs two_scene_story_def)
  with toggleMute_only_music [OF h] h show ?thesis by simp
qed

section \<open>Properties of the export pipeline\<close>

lemma sceneDuration_pos: "0 < sceneDuration sc"
  by (simp add: sceneDuration_def)

lemma render_eq:
  "render i n d fs s =
     s\<lparr>exp_progress := (if frame_values i n d fs = [] then exp_progress s
                         else last (frame_values i n d fs)),
       reported := reported s @ frame_values i n d fs\<rparr>"
proof (induction fs arbitrary: s)
  case Nil
  show ?case by simp
next
  case (Cons e es)
  show ?case by (simp add: Cons Let_def)
qed

lemma frame_values_mem:
  "v \<in> set (frame_values i n d fs) \<Longrightarrow>
     \<exists>e \<in> set fs. v = (real i + min (e / d) 1) / real n * 100"
  by (induction fs) (auto simp: Let_def split: if_splits)

lemma scaled_mono:
  assumes "0 < n" and "a \<le> b"
  shows "(real i + a) / real n * 100 \<le> (real i + b) / real n * 100"
  using assms by (simp add: divide_right_mono)

lemma frame_values_bounds:
  assumes "0 < n" and "0 < d" and "\<forall>e \<in> set fs. 0 \<le> e" and "v \<in> set (frame_values i n d fs)"
  shows "real i / real n * 100 \<le> v \<and> v \<le> (real i + 1) / real n * 100"
proof -
  from frame_values_mem [OF assms(4)] obtain e
    where e: "e \<in> set fs" "v = (real i + min (e / d) 1) / real n * 100" by blast
  have "0 \<le> min (e / d) 1" "min (e / d) 1 \<le> 1"
    using assms(2,3) e(1) by simp_all
  then show ?thesis
    using scaled_mono [OF assms(1), of 0 "min (e / d) 1" i]
      scaled_mono [OF assms(1), of "min (e / d) 1" 1 i] e(2) by simp
qed

lemma frame_values_sorted:
  assumes "0 < n" and "0 < d" and "sorted fs"
  shows "sorted (frame_values i n d fs)"
  using assms(3)
proof (induction fs)
  case Nil
  show ?case by simp
next
  case (Cons e es)
  define w where "w = (real i + min (e / d) 1) / real n * 100"
  have le: "w \<le> v" if "v \<in> set (frame_values i n d es)" for v
  proof -
    from frame_values_mem [OF that] obtain e'
      where e': "e' \<in> set es" "v = (real i + min (e' / d) 1) / real n * 100" by blast
    have "e \<le> e'" using Cons.prems e'(1) by simp
    then have "e / d \<le> e' / d"
      using assms(2) by (simp add: divide_right_mono)
    then have "min (e / d) 1 \<le> min (e' / d) 1"
      by (simp add: min_def)
    then show ?thesis unfolding w_def e'(2) by (rule scaled_mono [OF assms(1)])
  qed
  have fv: "frame_values i n d (e # es) =
              (if min (e / d) 1 < 1 then w # frame_values i n d es else [w])"
    by (simp add: w_def Let_def)
  from Cons have "sorted (frame_values i n d es)" by simp
  then show ?case unfolding fv using le by simp
qed

lemma frame_values_top:
  assumes "0 < n" and "0 < d"
  shows "(real i + 1) / real n * 100 \<in> set (frame_values i n d fs) \<longleftrightarrow> (\<exists>e \<in> set fs. d \<le> e)"
proof
  assume "(real i + 1) / real n * 100 \<in> set (frame_values i n d fs)"
  from frame_values_mem [OF this] obtain e
    where e: "e \<in> set fs" "(real i + 1) / real n * 100 = (real i + min (e / d) 1) / real n * 100"
    by blast
  from e(2) assms(1) have "min (e / d) 1 = 1" by simp
  then have "1 \<le> e / d" by (simp add: min_def split: if_splits)
  then have "d \<le> e" using assms(2) by (simp add: pos_le_divide_eq)
  with e(1) show "\<exists>e \<in> set fs. d \<le> e" by blast
next
  assume "\<exists>e \<in> set fs. d \<le> e"
  then show "(real i + 1) / real n * 100 \<in> set (frame_values i n d fs)"
  proof (induction fs)
    case Nil
    then show ?case by simp
  next
    case (Cons e es)
    show ?case
    proof (cases "d \<le> e")
      case True
      then have "min (e / d) 1 = 1" using assms(2) by (simp add: pos_le_divide_eq)
      then show ?thesis by (simp add: Let_def)
    next
      case False
      with Cons.prems have "\<exists>e \<in> set es. d \<le> e" by simp
      from Cons.IH [OF this] show ?thesis by (simp add: Let_def)
    qed
  qed
qed

lemma export_values_mem:
  "v \<in> set (export_values i n scs env) \<Longrightarrow>
     \<exists>j < length scs. \<exists>e \<in> set (frames (env (i + j))).
        v = (real (i + j) + min (e / sceneDuration (scs ! j)) 1) / real n * 100"
proof (induction scs arbitrary: i)
  case Nil
  then show ?case by simp
next
  case (Cons sc rest)
  from Cons.prems consider
      "v \<in> set (frame_values i n (sceneDuration sc) (frames (env i)))"
    | "v \<in> set (export_values (Suc i) n rest env)" by auto
  then show ?case
  proof cases
    case 1
    from frame_values_mem [OF 1] obtain e
      where "e \<in> set (frames (env i))" "v = (real i + min (e / sceneDuration sc) 1) / real n * 100"
      by blast
    then show ?thesis by (intro exI [of _ 0]) auto
  next
    case 2
    from Cons.IH [OF 2] obtain j e where j: "j < length rest"
      "e \<in> set (frames (env (Suc i + j)))"
      "v = (real (Suc i + j) + min (e / sceneDuration (rest ! j)) 1) / real n * 100" by blast
    then show ?thesis by (intro exI [of _ "Suc j"]) auto
  qed
qed

lemma export_values_bounds:
  assumes "0 < n" and "\<forall>j < length scs. \<forall>e \<in> set (frames (env (i + j))). 0 \<le> e"
    and "v \<in> set (export_values i n scs env)"
  shows "real i / real n * 100 \<le> v \<and> v \<le> real (i + length scs) / real n * 100"
proof -
  from export_values_mem [OF assms(3)] obtain j e where j: "j < length scs"
    "e \<in> set (frames (env (i + j)))"
    "v = (real (i + j) + min (e / sceneDuration (scs ! j)) 1) / real n * 100" by blast
  have "0 \<le> e" using assms(2) j(1,2) by blast
  then have m: "0 \<le> min (e / sceneDuration (scs ! j)) 1" "min (e / sceneDuration (scs ! j)) 1 \<le> 1"
    using sceneDuration_pos [of "scs ! j"] by simp_all
  have "real i \<le> real (i + j) + min (e / sceneDuration (scs ! j)) 1"
    using m(1) by simp
  then have lo: "real i / real n * 100 \<le> v"
    unfolding j(3) using assms(1) by (simp add: divide_right_mono)
  have "real (i + j) + min (e / sceneDuration (scs ! j)) 1 \<le> real (i + length scs)"
    using m(2) j(1) by simp
  then have hi: "v \<le> real (i + length scs) / real n * 100"
    unfolding j(3) using assms(1) by (simp add: divide_right_mono)
  from lo hi show ?thesis by blast
qed

lemma export_values_sorted:
  assumes "0 < n"
    and "\<forall>j < length scs. sorted (frames (env (i + j))) \<and> (\<forall>e \<in> set (frames (env (i + j))). 0 \<le> e)"
  shows "sorted (export_values i n scs env)"
  using assms(2)
proof (induction scs arbitrary: i)
  case Nil
  show ?case by simp
next
  case (Cons sc rest)
  have h0: "sorted (frames (env i))" "\<forall>e \<in> set (frames (env i)). 0 \<le> e"
    using Cons.prems by force+
  have hr: "\<forall>j < length rest. sorted (frames (env (Suc i + j)))
               \<and> (\<forall>e \<in> set (frames (env (Suc i + j))). 0 \<le> e)"
    using Cons.prems by force
  have s1: "sorted (frame_values i n (sceneDuration sc) (frames (env i)))"
    using frame_values_sorted [OF assms(1) sceneDuration_pos h0(1)] .
  have s2: "sorted (export_values (Suc i) n rest env)"
    using Cons.IH [OF hr] .
  have "x \<le> y" if "x \<in> set (frame_values i n (sceneDuration sc) (frames (env i)))"
      and "y \<in> set (export_values (Suc i) n rest env)" for x y
  proof -
    have a: "x \<le> (real i + 1) / real n * 100"
      using frame_values_bounds [OF assms(1) sceneDuration_pos h0(2) that(1)] by blast
    have b: "real (Suc i) / real n * 100 \<le> y"
      using export_values_bounds [OF assms(1) _ that(2)] hr by blast
    have c: "real (Suc i) = real i + 1" by simp
    show ?thesis using a b unfolding c by (rule order_trans)
  qed
  then show ?case using s1 s2 by (simp add: sorted_append)
qed

lemma export_values_full:
  assumes "0 < n" and "scs \<noteq> []" and "i + length scs = n"
    and "\<forall>j < length scs. \<forall>e \<in> set (frames (env (i + j))). 0 \<le> e"
  shows "100 \<in> set (export_values i n scs env)
           \<longleftrightarrow> (\<exists>e \<in> set (frames (env (n - 1))). sceneDuration (last scs) \<le> e)"
  using assms(2,3,4)
proof (induction scs arbitrary: i)
  case Nil
  then show ?case by simp
next
  case (Cons sc rest)
  show ?case
  proof (cases "rest = []")
    case True
    with Cons.prems have n: "n = Suc i" by simp
    have "(real i + 1) / real n = 1" unfolding n by simp
    then have "(real i + 1) / real n * 100 = 100" by (simp only: mult_1)
    then show ?thesis
      using frame_values_top [OF assms(1) sceneDuration_pos, of i sc "frames (env i)"] True n
      by simp
  next
    case False
    have h0: "\<forall>e \<in> set (frames (env i)). 0 \<le> e"
      using Cons.prems(3) by force
    have hr: "\<forall>j < length rest. \<forall>e \<in> set (frames (env (Suc i + j))). 0 \<le> e"
      using Cons.prems(3) by force
    have lt: "Suc i < n" using Cons.prems(2) False by (cases rest) auto
    have "100 \<notin> set (frame_values i n (sceneDuration sc) (frames (env i)))"
    proof
      assume "100 \<in> set (frame_values i n (sceneDuration sc) (frames (env i)))"
      from frame_values_bounds [OF assms(1) sceneDuration_pos h0 this]
      have "100 \<le> (real i + 1) / real n * 100" by blast
      then have "real n \<le> real i + 1" using assms(1) by (simp add: pos_le_divide_eq)
      with lt show False by simp
    qed
    moreover have "100 \<in> set (export_values (Suc i) n rest env)
           \<longleftrightarrow> (\<exists>e \<in> set (frames (env (n - 1))). sceneDuration (last rest) \<le> e)"
      using Cons.IH [OF False _ hr] Cons.prems(2) by simp
    ultimately show ?thesis using False by simp
  qed
qed

lemma frame_values_nonempty: "fs \<noteq> [] \<Longrightarrow> frame_values i n d fs \<noteq> []"
  by (cases fs) (simp_all add: Let_def)

lemma export_values_nonempty:
  "scs \<noteq> [] \<Longrightarrow> i + length scs = n \<Longrightarrow> frames (env (n - 1)) \<noteq> []
     \<Longrightarrow> export_values i n scs env \<noteq> []"
proof (induction scs arbitrary: i)
  case Nil
  then show ?case by simp
next
  case (Cons sc rest)
  show ?case
  proof (cases "rest = []")
    case True
    with Cons.prems have "n - 1 = i" by simp
    with Cons.prems(3) show ?thesis by (simp add: frame_values_nonempty)
  next
    case False
    from Cons.IH [OF False _ Cons.prems(3)] Cons.prems(2) show ?thesis by simp
  qed
qed

lemma scene_loop_Finished:
  assumes "scene_loop i n scs env s = Finished s'"
  shows "reported s' = reported s @ export_values i n scs env
       \<and> exp_progress s' = (if export_values i n scs env = [] then exp_progress s
                              else last (export_values i n scs env))
       \<and> isDone s' = isDone s \<and> recorderRef s' = recorderRef s"
  using assms
proof (induction scs arbitrary: i s)
  case Nil
  then show ?case by simp
next
  case (Cons sc rest)
  from Cons.prems obtain delay where d: "image_answer sc (env i) = LoadEvent delay"
    by (cases "image_answer sc (env i)") (simp_all add: Let_def)
  define s1 where "s1 = after_load i n sc (frames (env i)) delay (s\<lparr>exp_sceneIndex := i\<rparr>)"
  have loop: "scene_loop (Suc i) n rest env s1 = Finished s'"
    using Cons.prems d by (simp add: s1_def Let_def)
  have r1: "reported s1 = reported s @ frame_values i n (sceneDuration sc) (frames (env i))"
    and p1: "exp_progress s1 = (if frame_values i n (sceneDuration sc) (frames (env i)) = []
                                then exp_progress s
                                else last (frame_values i n (sceneDuration sc) (frames (env i))))"
    and f1: "isDone s1 = isDone s" "recorderRef s1 = recorderRef s"
    by (simp_all add: s1_def after_load_def Let_def render_eq split: option.splits)
  from Cons.IH [OF loop] r1 p1 f1 show ?case by simp
qed

lemma sorted_le_last: "sorted xs \<Longrightarrow> x \<in> set xs \<Longrightarrow> x \<le> last (xs :: real list)"
  by (induction xs) auto

text \<open>
  A call of \<open>playAllScenes\<close> that runs to its end has reported, frame by frame, exactly the
  values \<open>(i + min (elapsed / sceneDuration) 1) / total * 100\<close> of the frames that ran, and its
  last report is the progress shown. The recorder is stopped and \<open>isDone\<close> set if a recorder
  was recording.
\<close>

lemma playAllScenes_Finished:
  assumes "playAllScenes st env s0 = Finished s"
  shows "reported s = reported s0 @ export_values 0 (length (scenes st)) (scenes st) env
       \<and> exp_progress s =
             (if export_values 0 (length (scenes st)) (scenes st) env = [] then exp_progress s0
              else last (export_values 0 (length (scenes st)) (scenes st) env))
       \<and> isDone s = (isDone s0 \<or> recorderRef s0 = Some recording)
       \<and> recorderRef s \<noteq> Some recording \<and> \<not> isRecordingRef s"
proof -
  let ?s = "s0\<lparr>bed_playing := (case backgroundMusic st of
                                   None \<Rightarrow> False
                                 | Some mood \<Rightarrow> mood \<noteq> [] \<and> mood \<noteq> ''none'')\<rparr>"
  from assms obtain s' where l: "scene_loop 0 (length (scenes st)) (scenes st) env ?s = Finished s'"
    by (cases "scene_loop 0 (length (scenes st)) (scenes st) env ?s")
       (simp_all add: playAllScenes_def Let_def)
  from scene_loop_Finished [OF l]
  have f: "reported s' = reported s0 @ export_values 0 (length (scenes st)) (scenes st) env"
    "exp_progress s' =
       (if export_values 0 (length (scenes st)) (scenes st) env = [] then exp_progress s0
        else last (export_values 0 (length (scenes st)) (scenes st) env))"
    "isDone s' = isDone s0" "recorderRef s' = recorderRef s0"
    by simp_all
  show ?thesis
  proof (cases "recorderRef s0")
    case None
    with assms l f show ?thesis
      by (auto simp: playAllScenes_def Let_def)
  next
    case (Some r)
    with assms l f show ?thesis
      by (cases r) (auto simp: playAllScenes_def Let_def)
  qed
qed

text \<open>
  Over frame times that neither precede the start of their scene nor run backwards, the
  values reported are non-decreasing and lie between 0 and 100 (\<open>export_values_sorted\<close>,
  \<open>export_values_bounds\<close>). The progress a finished call leaves is 100 exactly when some frame
  of the last scene ran at or after the duration of that scene, before the timer of the
  scene cancelled the loop.
\<close>

lemma playAllScenes_final_progress:
  assumes "playAllScenes st env s0 = Finished s" and "scenes st \<noteq> []"
    and "\<forall>i < length (scenes st). sorted (frames (env i)) \<and> (\<forall>e \<in> set (frames (env i)). 0 \<le> e)"
    and "frames (env (length (scenes st) - 1)) \<noteq> []"
  shows "sorted (export_values 0 (length (scenes st)) (scenes st) env)
       \<and> (\<forall>v \<in> set (export_values 0 (length (scenes st)) (scenes st) env). 0 \<le> v \<and> v \<le> 100)
       \<and> (exp_progress s = 100
             \<longleftrightarrow> (\<exists>e \<in> set (frames (env (length (scenes st) - 1))).
                    sceneDuration (last (scenes st)) \<le> e))"
proof -
  let ?n = "length (scenes st)"
  let ?vs = "export_values 0 ?n (scenes st) env"
  have n: "0 < ?n" using assms(2) by simp
  have fr: "\<forall>j < ?n. sorted (frames (env (0 + j))) \<and> (\<forall>e \<in> set (frames (env (0 + j))). 0 \<le> e)"
    using assms(3) by simp
  then have nn: "\<forall>j < ?n. \<forall>e \<in> set (frames (env (0 + j))). 0 \<le> e"
    by blast
  have ne: "?vs \<noteq> []"
    using assms(2,4) export_values_nonempty [where scs = "scenes st" and i = 0 and env = env and n = ?n] by simp
  from playAllScenes_Finished [OF assms(1)] ne
  have prog: "exp_progress s = last ?vs" by simp
  have srt: "sorted ?vs"
    using export_values_sorted [OF n fr] .
  have bnd: "0 \<le> v \<and> v \<le> 100" if "v \<in> set ?vs" for v
  proof -
    from export_values_bounds [OF n nn that]
    have "real 0 / real ?n * 100 \<le> v" "v \<le> real (0 + ?n) / real ?n * 100" by blast+
    then show ?thesis using n by simp
  qed
  have full: "100 \<in> set ?vs
           \<longleftrightarrow> (\<exists>e \<in> set (frames (env (?n - 1))). sceneDuration (last (scenes st)) \<le> e)"
    using export_values_full [OF n assms(2) _ nn] by simp
  have "exp_progress s = 100 \<longleftrightarrow> 100 \<in> set ?vs"
  proof
    assume e: "exp_progress s = 100"
    then have "last ?vs = 100" using prog by simp
    then show "100 \<in> set ?vs" using last_in_set [OF ne] by simp
  next
    assume in100: "100 \<in> set ?vs"
    have "100 \<le> last ?vs"
      using srt in100 by (rule sorted_le_last)
    moreover have "last ?vs \<le> 100" using bnd [of "last ?vs"] ne by simp
    ultimately show "exp_progress s = 100" using prog by simp
  qed
  with full have fin: "exp_progress s = 100
             \<longleftrightarrow> (\<exists>e \<in> set (frames (env (?n - 1))). sceneDuration (last (scenes st)) \<le> e)"
    by simp
  from srt bnd fin show ?thesis by blast
qed

lemma after_load_logs:
  "loaded (after_load i n sc fs delay s) = loaded s @ [(i, exp_clock s + delay)]"
  "set (narration_starts (after_load i n sc fs delay s))
     \<subseteq> set (narration_starts s) \<union> {(i, exp_clock s + delay)}"
  "render_starts (after_load i n sc fs delay s) = render_starts s @ [(i, exp_clock s + delay)]"
  "isDone (after_load i n sc fs delay s) = isDone s"
  "recorderRef (after_load i n sc fs delay s) = recorderRef s"
  "isRecordingRef (after_load i n sc fs delay s) = isRecordingRef s"
  by (auto simp: after_load_def Let_def render_eq split: option.splits)

text \<open>Narrations and render loops are only ever started by a load event, at its time.\<close>

lemma scene_loop_after_load:
  assumes "set (narration_starts s) \<subseteq> set (loaded s)" and "set (render_starts s) \<subseteq> set (loaded s)"
  shows "set (narration_starts (session (scene_loop i n scs env s)))
           \<subseteq> set (loaded (session (scene_loop i n scs env s)))
       \<and> set (render_starts (session (scene_loop i n scs env s)))
           \<subseteq> set (loaded (session (scene_loop i n scs env s)))"
  using assms
proof (induction scs arbitrary: i s)
  case Nil
  then show ?case by (simp add: session_def)
next
  case (Cons sc rest)
  show ?case
  proof (cases "image_answer sc (env i)")
    case (LoadEvent delay)
    let ?s1 = "after_load i n sc (frames (env i)) delay (s\<lparr>exp_sceneIndex := i\<rparr>)"
    have a: "set (narration_starts ?s1) \<subseteq> set (loaded ?s1)"
      using after_load_logs(2) [of i n sc "frames (env i)" delay "s\<lparr>exp_sceneIndex := i\<rparr>"]
        Cons.prems(1) by (auto simp: after_load_logs(1))
    have b: "set (render_starts ?s1) \<subseteq> set (loaded ?s1)"
      using Cons.prems(2) by (auto simp: after_load_logs)
    from Cons.IH [OF a b] show ?thesis by (simp add: LoadEvent Let_def)
  next
    case (ErrorEvent delay)
    then show ?thesis using Cons.prems by (simp add: session_def Let_def)
  next
    case NoEvent
    then show ?thesis using Cons.prems by (simp add: session_def Let_def)
  qed
qed

text \<open>
  A scene whose image answers with anything but a load event, an error event included, is
  where the loop stays: the session is left as the scene found it, whatever it was.
\<close>

lemma scene_loop_waits:
  assumes "\<forall>d. image_answer sc (env i) \<noteq> LoadEvent d"
  shows "scene_loop i n (sc # rest) env s = Stalled i (s\<lparr>exp_sceneIndex := i\<rparr>)"
  using assms by (cases "image_answer sc (env i)") (simp_all add: Let_def)

lemma image_answer_no_source:
  "imageData sc = None \<Longrightarrow> image_answer sc e = ErrorEvent 0"
  by (simp add: image_answer_def)

text \<open>
  Claim C5. The progress of an export does not reach 100. Mounted with the two-scene story
  with images, \<open>startExport\<close> throws the \<open>TypeError\<close> of \<^verbatim>\<open>audioDest.getAudioTracks()\<close> before
  the recorder exists and before \<open>playAllScenes\<close> is called: the progress stays 0 and nothing
  is ever reported. And \<open>playAllScenes\<close> taken by itself, on the session \<open>startExport\<close> would
  hand it, with images that load and frames 1000, 2000, 3000 and 3990 ms into each scene of
  4000 ms, the timer ending the scene before another frame runs: both scenes complete, the
  recorder is stopped and the export is done, the values reported follow the formula and
  never decrease, but the last one, the progress left on display, is 99.875 and not 100.
\<close>

theorem export_progress_ends_below_100:
  "startExport two_image_story punctual_env 0 = Threw TypeError (mounted 0)
   \<and> exp_progress (mounted 0) = 0
   \<and> reported (mounted 0) = []
   \<and> (\<exists>s. playAllScenes two_image_story punctual_env (recorder_started 0) = Finished s
          \<and> isDone s
          \<and> reported s = [12.5, 25, 37.5, 49.875, 62.5, 75, 87.5, 99.875]
          \<and> exp_progress s = 99.875)"
  by (simp add: startExport_def audioDest_getAudioTracks_def mounted_def recorder_started_def
        playAllScenes_def two_image_story_def two_scene_story_def one_pixel_png_def
        punctual_env_def image_answer_def Let_def after_load_def sceneDuration_def
        duration_ms_def narration_2000_def timer_delay_def to_int32_def)


end
